theory Spec2Isabelle
  imports Complex_Main
begin

section \<open>JavaScript numbers\<close>

text \<open>
  The TypeScript type \<^verbatim>\<open>number\<close> is modelled by the reals: an argument of a function is a
  finite number. In the functions of the sections that follow \<open>+\<close>, \<open>-\<close>, \<open>*\<close> are exact;
  where a property depends on the rounding of IEEE-754 double precision it is stated
  about the rounded version of the function, in which every arithmetic result passes
  through a rounding function (section Double precision). A division whose divisor may
  be zero, and \<^verbatim>\<open>Math.max()\<close> / \<^verbatim>\<open>Math.min()\<close> of no arguments, leave the finite numbers;
  their results are values of \<open>jsnum\<close>, which adds the two infinities and NaN.
\<close>

datatype jsnum = Fin real | PosInf | NegInf | NaN

text \<open>\<^verbatim>\<open>a - b\<close> on numbers that may be infinite or NaN.\<close>

fun jssub :: "jsnum \<Rightarrow> jsnum \<Rightarrow> jsnum" where
  "jssub (Fin a) (Fin b) = Fin (a - b)"
| "jssub NaN _ = NaN"
| "jssub _ NaN = NaN"
| "jssub PosInf PosInf = NaN"
| "jssub NegInf NegInf = NaN"
| "jssub PosInf _ = PosInf"
| "jssub NegInf _ = NegInf"
| "jssub (Fin a) PosInf = NegInf"
| "jssub (Fin a) NegInf = PosInf"

text \<open>\<^verbatim>\<open>a * b\<close>: infinity times zero is NaN.\<close>

fun jsmul :: "jsnum \<Rightarrow> jsnum \<Rightarrow> jsnum" where
  "jsmul (Fin a) (Fin b) = Fin (a * b)"
| "jsmul NaN _ = NaN"
| "jsmul _ NaN = NaN"
| "jsmul PosInf (Fin b) = (if b = 0 then NaN else if 0 < b then PosInf else NegInf)"
| "jsmul NegInf (Fin b) = (if b = 0 then NaN else if 0 < b then NegInf else PosInf)"
| "jsmul (Fin a) PosInf = (if a = 0 then NaN else if 0 < a then PosInf else NegInf)"
| "jsmul (Fin a) NegInf = (if a = 0 then NaN else if 0 < a then NegInf else PosInf)"
| "jsmul PosInf PosInf = PosInf"
| "jsmul NegInf NegInf = PosInf"
| "jsmul PosInf NegInf = NegInf"
| "jsmul NegInf PosInf = NegInf"

text \<open>
  \<^verbatim>\<open>a / b\<close>: \<open>0 / 0\<close> is NaN, a non-zero number over zero is an infinity of the
  dividend's sign (the zero divisors of this program are differences \<open>x - x\<close> and
  array lengths, which are \<open>+0\<close>).
\<close>

fun jsdiv :: "jsnum \<Rightarrow> jsnum \<Rightarrow> jsnum" where
  "jsdiv (Fin a) (Fin b) =
     (if b \<noteq> 0 then Fin (a / b)
      else if a = 0 then NaN
      else if 0 < a then PosInf else NegInf)"
| "jsdiv NaN _ = NaN"
| "jsdiv _ NaN = NaN"
| "jsdiv (Fin a) PosInf = Fin 0"
| "jsdiv (Fin a) NegInf = Fin 0"
| "jsdiv PosInf (Fin b) = (if 0 \<le> b then PosInf else NegInf)"
| "jsdiv NegInf (Fin b) = (if 0 \<le> b then NegInf else PosInf)"
| "jsdiv PosInf PosInf = NaN"
| "jsdiv PosInf NegInf = NaN"
| "jsdiv NegInf PosInf = NaN"
| "jsdiv NegInf NegInf = NaN"

text \<open>\<^verbatim>\<open>Math.floor\<close>.\<close>

fun jsfloor :: "jsnum \<Rightarrow> jsnum" where
  "jsfloor (Fin a) = Fin (of_int \<lfloor>a\<rfloor>)"
| "jsfloor v = v"

text \<open>\<^verbatim>\<open>a < b\<close> and \<^verbatim>\<open>a >= b\<close>: every comparison with NaN is false.\<close>

fun jslt :: "jsnum \<Rightarrow> jsnum \<Rightarrow> bool" where
  "jslt (Fin a) (Fin b) = (a < b)"
| "jslt NaN _ = False"
| "jslt _ NaN = False"
| "jslt NegInf NegInf = False"
| "jslt NegInf _ = True"
| "jslt PosInf _ = False"
| "jslt (Fin a) PosInf = True"
| "jslt (Fin a) NegInf = False"

fun jsge :: "jsnum \<Rightarrow> jsnum \<Rightarrow> bool" where
  "jsge (Fin a) (Fin b) = (b \<le> a)"
| "jsge NaN _ = False"
| "jsge _ NaN = False"
| "jsge PosInf _ = True"
| "jsge NegInf NegInf = True"
| "jsge NegInf _ = False"
| "jsge (Fin a) NegInf = True"
| "jsge (Fin a) PosInf = False"

text \<open>
  \<^verbatim>\<open>Math.max(...xs)\<close> and \<^verbatim>\<open>Math.min(...xs)\<close> of finite numbers; of no arguments they
  are \<open>-Infinity\<close> and \<open>Infinity\<close>.
\<close>

fun mathMax :: "real list \<Rightarrow> jsnum" where
  "mathMax [] = NegInf"
| "mathMax (x # xs) = Fin (fold max xs x)"

fun mathMin :: "real list \<Rightarrow> jsnum" where
  "mathMin [] = PosInf"
| "mathMin (x # xs) = Fin (fold min xs x)"

text \<open>\<^verbatim>\<open>xs.reduce((a, b) => a + b, 0)\<close>.\<close>

definition reduceSum :: "real list \<Rightarrow> real" where
  "reduceSum xs = foldl (+) 0 xs"

text \<open>What the program throws.\<close>

datatype error = TypeError | GeometryError

section \<open>Double precision\<close>

text \<open>
  \<open>double x\<close> is the binary64 number nearest to \<open>x\<close>, a tie going to the even
  significand: \<open>expo x\<close> is the exponent of the last of the 53 bits of the significand
  and \<open>rne\<close> rounds the scaled number to an integer. The exponent has no bounds, so
  \<open>double\<close> is the rounding of the machine on every \<open>x\<close> whose result is 0 or has a
  magnitude in the normal range, from \<open>2 ^ -1022\<close> up to \<open>2 ^ 1024\<close>: there is no
  overflow to an infinity and no gradual underflow.
\<close>

definition rne :: "real \<Rightarrow> int" where
  "rne q =
     (let f = \<lfloor>q\<rfloor>
      in if q - of_int f < 1 / 2 then f
         else if 1 / 2 < q - of_int f then f + 1
         else if even f then f else f + 1)"

definition expo :: "real \<Rightarrow> int" where
  "expo x = \<lfloor>log 2 \<bar>x\<bar>\<rfloor> - 52"

definition double :: "real \<Rightarrow> real" where
  "double x = (if x = 0 then 0 else of_int (rne (x / 2 powi expo x)) * 2 powi expo x)"

text \<open>The rounding of a result that may have left the finite numbers.\<close>

fun jsround :: "(real \<Rightarrow> real) \<Rightarrow> jsnum \<Rightarrow> jsnum" where
  "jsround rnd (Fin a) = Fin (rnd a)"
| "jsround rnd v = v"

text \<open>\<^verbatim>\<open>xs.reduce((a, b) => a + b, 0)\<close>, every sum rounded.\<close>

definition reduceSumR :: "(real \<Rightarrow> real) \<Rightarrow> real list \<Rightarrow> real" where
  "reduceSumR rnd xs = foldl (\<lambda>a b. rnd (a + b)) 0 xs"

section \<open>Points\<close>

type_synonym coord = "real \<times> real"

text \<open>
  \<^verbatim>\<open>interface GridPoint\<close> of TimeDistortionMap.tsx; the interfaces of the same name in
  utils/distortion.ts and in the statistics module declare a subset of these fields.
  An optional field is an \<open>option\<close>.
\<close>

record GridPoint =
  point_id :: string
  coordinates :: coord
  originalCoordinates :: "coord option"
  travelTime :: "real option"
  animationProgress :: "real option"

text \<open>\<^verbatim>\<open>p.travelTime || 0\<close>: an absent travel time reads as 0 (and 0 is 0).\<close>

definition travelTimeOr0 :: "GridPoint \<Rightarrow> real" where
  "travelTimeOr0 p = (case travelTime p of None \<Rightarrow> 0 | Some t \<Rightarrow> t)"

section \<open>Statistics\<close>


record HeatmapDatum =
  coordinates_h :: coord
  intensity :: jsnum

definition generateHeatmapData :: "GridPoint list \<Rightarrow> HeatmapDatum list" where
  "generateHeatmapData points =
     (let maxTime = mathMax (map travelTimeOr0 points);
          minTime = mathMin (map travelTimeOr0 points)
      in map (\<lambda>point.
            \<lparr> coordinates_h = coordinates point,
              intensity = jsdiv (jssub (Fin (travelTimeOr0 point)) minTime)
                                (jssub maxTime minTime) \<rparr>) points)"

text \<open>
  The geometry library (turf) is not part of the repository: the functions the
  statistics call are parameters. Each may throw, and \<^verbatim>\<open>convex\<close> and \<^verbatim>\<open>buffer\<close> may
  return null. \<open>'g\<close> is the library's polygon feature.
  \<^item> \<open>turf_convex\<close>: \<^verbatim>\<open>turf.convex(turf.points(coords))\<close>;
  \<^item> \<open>turf_buffer\<close>: \<^verbatim>\<open>turf.buffer(hull, radius, { units: 'miles' })\<close>;
  \<^item> \<open>outer_ring\<close>: \<^verbatim>\<open>feature.geometry.coordinates[0].map(c => [c[0], c[1]])\<close>;
  \<^item> \<open>turf_area\<close>: \<^verbatim>\<open>turf.area(hull)\<close>, in square metres.
\<close>

record 'g turf =
  turf_convex :: "coord list \<Rightarrow> error + 'g option"
  turf_buffer :: "'g \<Rightarrow> real \<Rightarrow> error + 'g option"
  outer_ring :: "'g \<Rightarrow> error + coord list"
  turf_area :: "'g \<Rightarrow> error + real"

record IsochroneBand =
  threshold :: real
  coordinates_b :: "coord list"

text \<open>The points a threshold admits: \<^verbatim>\<open>points.filter(p => (p.travelTime || 0) <= threshold)\<close>.\<close>

definition accessiblePoints :: "GridPoint list \<Rightarrow> real \<Rightarrow> GridPoint list" where
  "accessiblePoints points t = filter (\<lambda>point. travelTimeOr0 point \<le> t) points"

text \<open>The body of the \<^verbatim>\<open>try\<close> block of \<^verbatim>\<open>calculateIsochrones\<close>.\<close>

definition isochroneTry :: "'g turf \<Rightarrow> coord list \<Rightarrow> real \<Rightarrow> error + IsochroneBand" where
  "isochroneTry T accessible t =
     (case turf_convex T accessible of
        Inl e \<Rightarrow> Inl e
      | Inr None \<Rightarrow> Inr \<lparr> threshold = t, coordinates_b = [] \<rparr>
      | Inr (Some hullPoly) \<Rightarrow>
          (case turf_buffer T hullPoly (1 / 10) of
             Inl e \<Rightarrow> Inl e
           | Inr None \<Rightarrow> Inr \<lparr> threshold = t, coordinates_b = [] \<rparr>
           | Inr (Some buffer) \<Rightarrow>
               (case outer_ring T buffer of
                  Inl e \<Rightarrow> Inl e
                | Inr coords \<Rightarrow> Inr \<lparr> threshold = t, coordinates_b = coords \<rparr>)))"

text \<open>The callback of \<^verbatim>\<open>timeThresholds.map\<close>: the \<^verbatim>\<open>catch\<close> turns a throw into an empty band.\<close>

definition isochroneBand :: "'g turf \<Rightarrow> GridPoint list \<Rightarrow> real \<Rightarrow> error + IsochroneBand" where
  "isochroneBand T points t =
     (let accessible = map coordinates (accessiblePoints points t)
      in if length accessible < 3 then Inr \<lparr> threshold = t, coordinates_b = [] \<rparr>
         else (case isochroneTry T accessible t of
                 Inl e \<Rightarrow> Inr \<lparr> threshold = t, coordinates_b = [] \<rparr>
               | Inr band \<Rightarrow> Inr band))"

text \<open>\<^verbatim>\<open>xs.map(f)\<close> for a callback that may throw: the first throw ends the map.\<close>

fun mapThrow :: "('a \<Rightarrow> error + 'b) \<Rightarrow> 'a list \<Rightarrow> error + 'b list" where
  "mapThrow f [] = Inr []"
| "mapThrow f (x # xs) =
     (case f x of
        Inl e \<Rightarrow> Inl e
      | Inr y \<Rightarrow> (case mapThrow f xs of Inl e \<Rightarrow> Inl e | Inr ys \<Rightarrow> Inr (y # ys)))"

definition calculateIsochrones ::
  "'g turf \<Rightarrow> GridPoint list \<Rightarrow> real list \<Rightarrow> error + IsochroneBand list" where
  "calculateIsochrones T points timeThresholds = mapThrow (isochroneBand T points) timeThresholds"

text \<open>
  \<^verbatim>\<open>points.filter((p, j) => ...)\<close> inside \<^verbatim>\<open>calculateConnectivity\<close>: the points, with
  their indices, that point \<open>i\<close> is connected to.
\<close>

definition connectedTo :: "GridPoint list \<Rightarrow> real \<Rightarrow> nat \<Rightarrow> (GridPoint \<times> nat) list" where
  "connectedTo points timeThreshold i =
     filter (\<lambda>(p, j). if i = j then False else travelTimeOr0 p < timeThreshold)
       (zip points [0..<length points])"

text \<open>The optional argument \<^verbatim>\<open>timeThreshold: number = 20\<close>.\<close>

definition thresholdOr20 :: "real option \<Rightarrow> real" where
  "thresholdOr20 timeThreshold = (case timeThreshold of None \<Rightarrow> 20 | Some t \<Rightarrow> t)"

definition calculateConnectivity :: "GridPoint list \<Rightarrow> real option \<Rightarrow> nat list" where
  "calculateConnectivity points timeThreshold =
     map (\<lambda>i. length (connectedTo points (thresholdOr20 timeThreshold) i)) [0..<length points]"

definition findCentralPoints :: "GridPoint list \<Rightarrow> real option \<Rightarrow> jsnum list" where
  "findCentralPoints points timeThreshold =
     (let connectivity = calculateConnectivity points timeThreshold;
          maxConnectivity = mathMax (map real connectivity)
      in map (\<lambda>i. jsdiv (Fin (real (connectivity ! i))) maxConnectivity) [0..<length points])"

text \<open>The body of the \<^verbatim>\<open>try\<close> block of \<^verbatim>\<open>calculateAreaCoverage\<close>.\<close>

definition areaTry :: "'g turf \<Rightarrow> coord list \<Rightarrow> error + real" where
  "areaTry T accessible =
     (case turf_convex T accessible of
        Inl e \<Rightarrow> Inl e
      | Inr None \<Rightarrow> Inr 0
      | Inr (Some hullPoly) \<Rightarrow>
          (case turf_area T hullPoly of
             Inl e \<Rightarrow> Inl e
           | Inr a \<Rightarrow> Inr (a * (3861 / 10000000000))))"

definition calculateAreaCoverage :: "'g turf \<Rightarrow> GridPoint list \<Rightarrow> real \<Rightarrow> error + real" where
  "calculateAreaCoverage T points timeThreshold =
     (let accessible = accessiblePoints points timeThreshold
      in if length accessible < 3 then Inr 0
         else (case areaTry T (map coordinates accessible) of
                 Inl e \<Rightarrow> Inr 0
               | Inr a \<Rightarrow> Inr a))"

section \<open>Streamlines\<close>

text \<open>\<^verbatim>\<open>interface Point\<close> and \<^verbatim>\<open>interface VectorField\<close>: \<open>{ x, y }\<close>.\<close>

type_synonym vec = "real \<times> real"

text \<open>\<^verbatim>\<open>bounds: [number, number, number, number]\<close>.\<close>

type_synonym bounds = "real \<times> real \<times> real \<times> real"

record StreamlineOptions =
  stepSize_opt :: "real option"
  maxSteps_opt :: "nat option"
  lineLength_opt :: "real option"

text \<open>
  The defaults of the destructuring \<^verbatim>\<open>{ stepSize = 0.1, maxSteps = 1000, lineLength = 10 }\<close>.
  \<open>maxSteps\<close> bounds the loop counter and is a natural number; the step size and the
  line length are any numbers, negative ones included.
\<close>

definition stepSizeOf :: "StreamlineOptions \<Rightarrow> real" where
  "stepSizeOf options = (case stepSize_opt options of None \<Rightarrow> 1 / 10 | Some s \<Rightarrow> s)"

definition maxStepsOf :: "StreamlineOptions \<Rightarrow> nat" where
  "maxStepsOf options = (case maxSteps_opt options of None \<Rightarrow> 1000 | Some n \<Rightarrow> n)"

definition lineLengthOf :: "StreamlineOptions \<Rightarrow> real" where
  "lineLengthOf options = (case lineLength_opt options of None \<Rightarrow> 10 | Some l \<Rightarrow> l)"

text \<open>
  \<^verbatim>\<open>xs[i]\<close> for a number \<open>i\<close>: the element when \<open>i\<close> is an index of the array,
  \<^verbatim>\<open>undefined\<close> otherwise (a fraction, a negative number, NaN, an infinity).
\<close>

fun arrayGet :: "'a list \<Rightarrow> jsnum \<Rightarrow> 'a option" where
  "arrayGet xs (Fin a) =
     (if a = of_int \<lfloor>a\<rfloor> \<and> 0 \<le> a \<and> nat \<lfloor>a\<rfloor> < length xs then Some (xs ! nat \<lfloor>a\<rfloor>) else None)"
| "arrayGet xs v = None"

text \<open>
  \<^verbatim>\<open>interpolateVector\<close>, with the \<open>width\<close> and \<open>height\<close> of its closure. Reading
  \<^verbatim>\<open>vectorField[i][j]\<close> throws when \<^verbatim>\<open>vectorField[i]\<close> is undefined, and is undefined
  when the row has no element \<open>j\<close>.
\<close>

definition interpolateVector ::
  "vec list list \<Rightarrow> bounds \<Rightarrow> nat \<Rightarrow> nat \<Rightarrow> real \<Rightarrow> real \<Rightarrow> error + vec option" where
  "interpolateVector vectorField bounds width height x y =
     (case bounds of (b0, b1, b2, b3) \<Rightarrow>
        let i = jsfloor (jsmul (jsdiv (Fin (x - b0)) (Fin (b2 - b0))) (Fin (real width - 1)));
            j = jsfloor (jsmul (jsdiv (Fin (y - b1)) (Fin (b3 - b1))) (Fin (real height - 1)))
        in if jslt i (Fin 0) \<or> jsge i (Fin (real width - 1)) \<or>
              jslt j (Fin 0) \<or> jsge j (Fin (real height - 1))
           then Inr (Some (0, 0))
           else (case arrayGet vectorField i of
                   None \<Rightarrow> Inl TypeError
                 | Some row \<Rightarrow> Inr (arrayGet row j)))"

text \<open>
  The \<^verbatim>\<open>for\<close> loop of \<^verbatim>\<open>integrateLine\<close>. The first argument after the closure's
  variables is the number of iterations left, \<open>maxSteps - step\<close>.
\<close>

fun integrateLoop ::
  "vec list list \<Rightarrow> bounds \<Rightarrow> nat \<Rightarrow> nat \<Rightarrow> real \<Rightarrow> real \<Rightarrow>
   nat \<Rightarrow> real \<Rightarrow> real \<Rightarrow> vec list \<Rightarrow> error + vec list" where
  "integrateLoop vectorField bounds width height stepSize lineLength 0 x y line = Inr line"
| "integrateLoop vectorField bounds width height stepSize lineLength (Suc n) x y line =
     (case interpolateVector vectorField bounds width height x y of
        Inl e \<Rightarrow> Inl e
      | Inr None \<Rightarrow> Inr line
      | Inr (Some vector) \<Rightarrow>
          (let magnitude = sqrt (fst vector * fst vector + snd vector * snd vector)
           in if magnitude < 1 / 1000000 then Inr line
              else
                (let x' = x + (fst vector / magnitude) * stepSize;
                     y' = y + (snd vector / magnitude) * stepSize
                 in case bounds of (b0, b1, b2, b3) \<Rightarrow>
                      if x' < b0 \<or> x' > b2 \<or> y' < b1 \<or> y' > b3 then Inr line
                      else
                        (let line' = line @ [(x', y')]
                         in if real (length line') * stepSize > lineLength then Inr line'
                            else integrateLoop vectorField bounds width height stepSize lineLength
                                   n x' y' line'))))"

definition integrateLine ::
  "vec list list \<Rightarrow> bounds \<Rightarrow> nat \<Rightarrow> nat \<Rightarrow> real \<Rightarrow> nat \<Rightarrow> real \<Rightarrow>
   real \<Rightarrow> real \<Rightarrow> error + vec list" where
  "integrateLine vectorField bounds width height stepSize maxSteps lineLength startX startY =
     integrateLoop vectorField bounds width height stepSize lineLength
       maxSteps startX startY [(startX, startY)]"

text \<open>
  \<^verbatim>\<open>interpolateVector\<close> and \<^verbatim>\<open>integrateLine\<close> in double precision: the same functions,
  every arithmetic result rounded by \<open>rnd\<close>. \<^verbatim>\<open>width - 1\<close> is an integer and exact,
  \<^verbatim>\<open>Math.sqrt\<close> is correctly rounded, and \<^verbatim>\<open>1e-6\<close> is the double nearest to a millionth.
  With the identity for \<open>rnd\<close> they are the functions above.
\<close>

definition interpolateVectorR ::
  "(real \<Rightarrow> real) \<Rightarrow> vec list list \<Rightarrow> bounds \<Rightarrow> nat \<Rightarrow> nat \<Rightarrow> real \<Rightarrow> real
   \<Rightarrow> error + vec option" where
  "interpolateVectorR rnd vectorField bounds width height x y =
     (case bounds of (b0, b1, b2, b3) \<Rightarrow>
        let i = jsfloor (jsround rnd (jsmul
                  (jsround rnd (jsdiv (Fin (rnd (x - b0))) (Fin (rnd (b2 - b0)))))
                  (Fin (real width - 1))));
            j = jsfloor (jsround rnd (jsmul
                  (jsround rnd (jsdiv (Fin (rnd (y - b1))) (Fin (rnd (b3 - b1)))))
                  (Fin (real height - 1))))
        in if jslt i (Fin 0) \<or> jsge i (Fin (real width - 1)) \<or>
              jslt j (Fin 0) \<or> jsge j (Fin (real height - 1))
           then Inr (Some (0, 0))
           else (case arrayGet vectorField i of
                   None \<Rightarrow> Inl TypeError
                 | Some row \<Rightarrow> Inr (arrayGet row j)))"

fun integrateLoopR ::
  "(real \<Rightarrow> real) \<Rightarrow> vec list list \<Rightarrow> bounds \<Rightarrow> nat \<Rightarrow> nat \<Rightarrow> real \<Rightarrow> real \<Rightarrow>
   nat \<Rightarrow> real \<Rightarrow> real \<Rightarrow> vec list \<Rightarrow> error + vec list" where
  "integrateLoopR rnd vectorField bounds width height stepSize lineLength 0 x y line = Inr line"
| "integrateLoopR rnd vectorField bounds width height stepSize lineLength (Suc n) x y line =
     (case interpolateVectorR rnd vectorField bounds width height x y of
        Inl e \<Rightarrow> Inl e
      | Inr None \<Rightarrow> Inr line
      | Inr (Some vector) \<Rightarrow>
          (let magnitude =
                 rnd (sqrt (rnd (rnd (fst vector * fst vector) + rnd (snd vector * snd vector))))
           in if magnitude < rnd (1 / 1000000) then Inr line
              else
                (let x' = rnd (x + rnd (rnd (fst vector / magnitude) * stepSize));
                     y' = rnd (y + rnd (rnd (snd vector / magnitude) * stepSize))
                 in case bounds of (b0, b1, b2, b3) \<Rightarrow>
                      if x' < b0 \<or> x' > b2 \<or> y' < b1 \<or> y' > b3 then Inr line
                      else
                        (let line' = line @ [(x', y')]
                         in if rnd (real (length line') * stepSize) > lineLength then Inr line'
                            else integrateLoopR rnd vectorField bounds width height stepSize
                                   lineLength n x' y' line'))))"

definition integrateLineR ::
  "(real \<Rightarrow> real) \<Rightarrow> vec list list \<Rightarrow> bounds \<Rightarrow> nat \<Rightarrow> nat \<Rightarrow> real \<Rightarrow> nat \<Rightarrow> real \<Rightarrow>
   real \<Rightarrow> real \<Rightarrow> error + vec list" where
  "integrateLineR rnd vectorField bounds width height stepSize maxSteps lineLength startX startY =
     integrateLoopR rnd vectorField bounds width height stepSize lineLength
       maxSteps startX startY [(startX, startY)]"

text \<open>The seed points: a 10 by 10 lattice, \<open>i\<close> in the outer loop.\<close>

definition seedPoints :: "bounds \<Rightarrow> vec list" where
  "seedPoints bounds =
     (case bounds of (b0, b1, b2, b3) \<Rightarrow>
        concat (map (\<lambda>i. map (\<lambda>j.
            (b0 + (b2 - b0) * (real i + 1 / 2) / 10,
             b1 + (b3 - b1) * (real j + 1 / 2) / 10)) [0..<10]) [0..<10]))"

text \<open>\<^verbatim>\<open>seedPoints.forEach\<close>: a line is kept when it has more than one point.\<close>

fun traceSeeds ::
  "vec list list \<Rightarrow> bounds \<Rightarrow> nat \<Rightarrow> nat \<Rightarrow> real \<Rightarrow> nat \<Rightarrow> real \<Rightarrow>
   vec list \<Rightarrow> vec list list \<Rightarrow> error + vec list list" where
  "traceSeeds vectorField bounds width height stepSize maxSteps lineLength [] streamlines =
     Inr streamlines"
| "traceSeeds vectorField bounds width height stepSize maxSteps lineLength (seed # seeds) streamlines =
     (case integrateLine vectorField bounds width height stepSize maxSteps lineLength
             (fst seed) (snd seed) of
        Inl e \<Rightarrow> Inl e
      | Inr line \<Rightarrow>
          traceSeeds vectorField bounds width height stepSize maxSteps lineLength seeds
            (if length line > 1 then streamlines @ [line] else streamlines))"

text \<open>\<^verbatim>\<open>createStreamlines\<close>; \<^verbatim>\<open>vectorField[0].length\<close> throws on an empty field.\<close>

definition createStreamlines ::
  "vec list list \<Rightarrow> bounds \<Rightarrow> StreamlineOptions \<Rightarrow> error + vec list list" where
  "createStreamlines vectorField bounds options =
     (let stepSize = stepSizeOf options;
          maxSteps = maxStepsOf options;
          lineLength = lineLengthOf options;
          width = length vectorField
      in case vectorField of
           [] \<Rightarrow> Inl TypeError
         | row0 # _ \<Rightarrow>
             (let height = length row0
              in traceSeeds vectorField bounds width height stepSize maxSteps lineLength
                   (seedPoints bounds) []))"

section \<open>Travel times and distortion\<close>

text \<open>
  \<^verbatim>\<open>Math.atan2(y, x)\<close> on finite numbers: the angle of the point \<open>(x, y)\<close>, in
  \<open>(-\<pi>, \<pi>]\<close>, and 0 at the origin.
\<close>

definition atan2 :: "real \<Rightarrow> real \<Rightarrow> real" where
  "atan2 y x =
     (if 0 < x then arctan (y / x)
      else if x < 0 then (if 0 \<le> y then arctan (y / x) + pi else arctan (y / x) - pi)
      else if 0 < y then pi / 2
      else if y < 0 then - (pi / 2)
      else 0)"

definition degreesToRadians :: "real \<Rightarrow> real" where
  "degreesToRadians degrees = degrees * pi / 180"

text \<open>
  Modelled from the spec: the haversine term of \<^verbatim>\<open>turf.distance\<close> (a function of the
  geometry library, which is not part of the repository), for two positions given as
  (longitude, latitude) in degrees.
\<close>

definition haversine_a :: "coord \<Rightarrow> coord \<Rightarrow> real" where
  "haversine_a from to =
     (let dLat = degreesToRadians (snd to - snd from);
          dLon = degreesToRadians (fst to - fst from);
          lat1 = degreesToRadians (snd from);
          lat2 = degreesToRadians (snd to)
      in (sin (dLat / 2))\<^sup>2 + (sin (dLon / 2))\<^sup>2 * cos lat1 * cos lat2)"

text \<open>
  Modelled from the spec: \<^verbatim>\<open>turf.distance(from, to, { units: 'miles' })\<close> belongs to the
  geometry library, which is not part of the repository. The specification calls it
  the great-circle distance between the coordinates, in miles; it is modelled by the
  haversine formula on a sphere of the mean earth radius (6371008.8 m, 1609.344 m to
  the mile).
\<close>

definition turf_distance :: "coord \<Rightarrow> coord \<Rightarrow> real" where
  "turf_distance from to =
     (let a = haversine_a from to
      in 2 * atan2 (sqrt a) (sqrt (1 - a)) * ((63710088 / 10) / (1609344 / 1000)))"

text \<open>\<^verbatim>\<open>generateTimeMatrix\<close>: minutes at 30 miles per hour, one distance call per ordered pair.\<close>

definition generateTimeMatrix :: "(coord \<Rightarrow> coord \<Rightarrow> real) \<Rightarrow> GridPoint list \<Rightarrow> real list list" where
  "generateTimeMatrix distance points =
     map (\<lambda>point1. map (\<lambda>point2.
         (distance (coordinates point1) (coordinates point2) / 30) * 60) points) points"

text \<open>The optional argument \<^verbatim>\<open>distortionFactor: number = 1\<close>.\<close>

definition factorOr1 :: "real option \<Rightarrow> real" where
  "factorOr1 distortionFactor = (case distortionFactor of None \<Rightarrow> 1 | Some f \<Rightarrow> f)"

text \<open>
  The callback of \<^verbatim>\<open>points.map((point, i) => ...)\<close> in \<^verbatim>\<open>distortPoints\<close> of
  TimeDistortionMap.tsx. \<^verbatim>\<open>timeMatrix[i].reduce\<close> throws when the matrix has no row \<open>i\<close>;
  \<^verbatim>\<open>points[0]\<close> exists whenever the callback runs.
\<close>

definition distortPoint ::
  "GridPoint list \<Rightarrow> real list list \<Rightarrow> real \<Rightarrow> GridPoint \<times> nat \<Rightarrow> error + GridPoint" where
  "distortPoint points timeMatrix distortionFactor entry =
     (case entry of (point, i) \<Rightarrow>
        if \<not> i < length timeMatrix then Inl TypeError
        else
          (let avgTime = reduceSum (timeMatrix ! i) / real (length points);
               scaleFactor = (avgTime / 60) * distortionFactor
           in case points of
                [] \<Rightarrow> Inl TypeError
              | centerPoint # _ \<Rightarrow>
                  (let direction = atan2
                         (snd (coordinates point) - snd (coordinates centerPoint))
                         (fst (coordinates point) - fst (coordinates centerPoint))
                   in Inr (point\<lparr> coordinates :=
                                  (fst (coordinates point) + cos direction * scaleFactor,
                                   snd (coordinates point) + sin direction * scaleFactor),
                                travelTime := Some avgTime \<rparr>))))"

definition distortPoints ::
  "GridPoint list \<Rightarrow> real list list \<Rightarrow> real option \<Rightarrow> error + GridPoint list" where
  "distortPoints points timeMatrix distortionFactor =
     mapThrow (distortPoint points timeMatrix (factorOr1 distortionFactor))
       (zip points [0..<length points])"

text \<open>
  \<^verbatim>\<open>Math.atan2\<close>, \<^verbatim>\<open>Math.cos\<close> and \<^verbatim>\<open>Math.sin\<close> belong to the engine, which may return
  either neighbour of the exact value: in double precision they are parameters.
  \<open>exactLibm\<close> are the functions of the reals.
\<close>

record libm =
  m_atan2 :: "real \<Rightarrow> real \<Rightarrow> real"
  m_cos :: "real \<Rightarrow> real"
  m_sin :: "real \<Rightarrow> real"

definition exactLibm :: libm where
  "exactLibm = \<lparr> m_atan2 = atan2, m_cos = cos, m_sin = sin \<rparr>"

text \<open>
  \<^verbatim>\<open>generateTimeMatrix\<close> and \<^verbatim>\<open>distortPoints\<close> of TimeDistortionMap.tsx in double
  precision: the same functions, every arithmetic result rounded by \<open>rnd\<close> and the
  functions of \<^verbatim>\<open>Math\<close> taken from \<open>m\<close>. \<^verbatim>\<open>points.length\<close> is an integer and exact.
  With the identity for \<open>rnd\<close> and \<open>exactLibm\<close> for \<open>m\<close> they are the functions above.
\<close>

definition generateTimeMatrixR ::
  "(real \<Rightarrow> real) \<Rightarrow> (coord \<Rightarrow> coord \<Rightarrow> real) \<Rightarrow> GridPoint list \<Rightarrow> real list list" where
  "generateTimeMatrixR rnd distance points =
     map (\<lambda>point1. map (\<lambda>point2.
         rnd (rnd (distance (coordinates point1) (coordinates point2) / 30) * 60)) points) points"

definition distortPointR ::
  "(real \<Rightarrow> real) \<Rightarrow> libm \<Rightarrow> GridPoint list \<Rightarrow> real list list \<Rightarrow> real \<Rightarrow> GridPoint \<times> nat
   \<Rightarrow> error + GridPoint" where
  "distortPointR rnd m points timeMatrix distortionFactor entry =
     (case entry of (point, i) \<Rightarrow>
        if \<not> i < length timeMatrix then Inl TypeError
        else
          (let avgTime = rnd (reduceSumR rnd (timeMatrix ! i) / real (length points));
               scaleFactor = rnd (rnd (avgTime / 60) * distortionFactor)
           in case points of
                [] \<Rightarrow> Inl TypeError
              | centerPoint # _ \<Rightarrow>
                  (let direction = m_atan2 m
                         (rnd (snd (coordinates point) - snd (coordinates centerPoint)))
                         (rnd (fst (coordinates point) - fst (coordinates centerPoint)))
                   in Inr (point\<lparr> coordinates :=
                       (rnd (fst (coordinates point) + rnd (m_cos m direction * scaleFactor)),
                        rnd (snd (coordinates point) + rnd (m_sin m direction * scaleFactor))),
                     travelTime := Some avgTime \<rparr>))))"

definition distortPointsR ::
  "(real \<Rightarrow> real) \<Rightarrow> libm \<Rightarrow> GridPoint list \<Rightarrow> real list list \<Rightarrow> real option
   \<Rightarrow> error + GridPoint list" where
  "distortPointsR rnd m points timeMatrix distortionFactor =
     mapThrow (distortPointR rnd m points timeMatrix (factorOr1 distortionFactor))
       (zip points [0..<length points])"

text \<open>
  \<^verbatim>\<open>distortPoints\<close> of utils/distortion.ts, which takes no factor. It first builds the
  square roots of the matrix and the centring matrix of classical scaling; the step
  that would read them is commented out, and the result is the map below. The object
  it returns is \<^verbatim>\<open>{ ...point, coordinates }\<close>: every other field is the input's.
\<close>

definition distortPoint_utils ::
  "GridPoint list \<Rightarrow> real list list \<Rightarrow> GridPoint \<times> nat \<Rightarrow> error + GridPoint" where
  "distortPoint_utils points timeMatrix entry =
     (case entry of (point, i) \<Rightarrow>
        if \<not> i < length timeMatrix then Inl TypeError
        else
          (let avgTime = reduceSum (timeMatrix ! i) / real (length points);
               distortionFactor = avgTime / 60
           in case points of
                [] \<Rightarrow> Inl TypeError
              | point0 # _ \<Rightarrow>
                  (let direction = atan2
                         (snd (coordinates point) - snd (coordinates point0))
                         (fst (coordinates point) - fst (coordinates point0))
                   in Inr (point\<lparr> coordinates :=
                                  (fst (coordinates point) + cos direction * distortionFactor,
                                   snd (coordinates point) + sin direction * distortionFactor) \<rparr>))))"

definition distortPoints_utils :: "GridPoint list \<Rightarrow> real list list \<Rightarrow> error + GridPoint list" where
  "distortPoints_utils points timeMatrix =
     mapThrow (distortPoint_utils points timeMatrix) (zip points [0..<length points])"

section \<open>Notions the properties speak of\<close>

text \<open>
  A geometric failure of one threshold: the hull or the buffer is null, or one of the
  library calls throws.
\<close>

definition geometryFails :: "'g turf \<Rightarrow> coord list \<Rightarrow> bool" where
  "geometryFails T accessible =
     (case turf_convex T accessible of
        Inl e \<Rightarrow> True
      | Inr None \<Rightarrow> True
      | Inr (Some hullPoly) \<Rightarrow>
          (case turf_buffer T hullPoly (1 / 10) of
             Inl e \<Rightarrow> True
           | Inr None \<Rightarrow> True
           | Inr (Some buffer) \<Rightarrow>
               (case outer_ring T buffer of Inl e \<Rightarrow> True | Inr coords \<Rightarrow> False)))"

text \<open>The displacement of a point: distorted coordinates minus original coordinates.\<close>

definition displacement :: "GridPoint \<Rightarrow> GridPoint \<Rightarrow> vec" where
  "displacement original distorted =
     (fst (coordinates distorted) - fst (coordinates original),
      snd (coordinates distorted) - snd (coordinates original))"

definition vecLength :: "vec \<Rightarrow> real" where
  "vecLength v = sqrt ((fst v)\<^sup>2 + (snd v)\<^sup>2)"

text \<open>
  What \<open>distortPointR\<close> adds to the coordinates of point \<open>i\<close>:
  \<^verbatim>\<open>Math.cos(direction) * scaleFactor\<close> and \<^verbatim>\<open>Math.sin(direction) * scaleFactor\<close>.
\<close>

definition offsetR :: "(real \<Rightarrow> real) \<Rightarrow> libm \<Rightarrow> GridPoint list \<Rightarrow> real list list \<Rightarrow> real \<Rightarrow> nat \<Rightarrow> vec" where
  "offsetR rnd m points timeMatrix f i =
     (let avgTime = rnd (reduceSumR rnd (timeMatrix ! i) / real (length points));
          scaleFactor = rnd (rnd (avgTime / 60) * f);
          direction = m_atan2 m
             (rnd (snd (coordinates (points ! i)) - snd (coordinates (points ! 0))))
             (rnd (fst (coordinates (points ! i)) - fst (coordinates (points ! 0))))
      in (rnd (m_cos m direction * scaleFactor), rnd (m_sin m direction * scaleFactor)))"

text \<open>
  Every number that \<open>distortPointR\<close> computes for point \<open>i\<close>: the partial sums of
  the row, the factor, the average, the scale, the two differences, the direction with
  its cosine and sine, the two products and the two coordinates. Where all of them are
  \<open>normalOrZero\<close> no result of the run overflows or underflows, and \<open>double\<close> is
  the rounding of the machine at every step.
\<close>

definition normalOrZero :: "real \<Rightarrow> bool" where
  "normalOrZero z \<longleftrightarrow> z = 0 \<or> (1 / 2 ^ 1022 \<le> \<bar>z\<bar> \<and> \<bar>z\<bar> < 2 ^ 1024)"

definition computedNumbers ::
  "(real \<Rightarrow> real) \<Rightarrow> libm \<Rightarrow> GridPoint list \<Rightarrow> real list list \<Rightarrow> real \<Rightarrow> nat \<Rightarrow> real list" where
  "computedNumbers rnd m points timeMatrix distortionFactor i =
     (let row = timeMatrix ! i;
          point = points ! i;
          centerPoint = points ! 0;
          partialSums = map (\<lambda>k. reduceSumR rnd (take k row)) [0..<Suc (length row)];
          avgTime = rnd (reduceSumR rnd row / real (length points));
          perHour = rnd (avgTime / 60);
          scaleFactor = rnd (perHour * distortionFactor);
          dy = rnd (snd (coordinates point) - snd (coordinates centerPoint));
          dx = rnd (fst (coordinates point) - fst (coordinates centerPoint));
          direction = m_atan2 m dy dx;
          c = m_cos m direction;
          s = m_sin m direction
      in partialSums @
         [distortionFactor, avgTime, perHour, scaleFactor, dy, dx, direction, c, s,
          rnd (c * scaleFactor), rnd (s * scaleFactor),
          rnd (fst (coordinates point) + rnd (c * scaleFactor)),
          rnd (snd (coordinates point) + rnd (s * scaleFactor))])"

text \<open>The positions of a walk along \<open>x\<close>: each the rounded sum of the one before and the step.\<close>

fun stepsAlong :: "(real \<Rightarrow> real) \<Rightarrow> real \<Rightarrow> real \<Rightarrow> nat \<Rightarrow> real" where
  "stepsAlong rnd s x 0 = x"
| "stepsAlong rnd s x (Suc k) = rnd (stepsAlong rnd s x k + s)"

text \<open>A vector field that is \<open>(1, 0)\<close> in every cell.\<close>

definition unitField :: "nat \<Rightarrow> nat \<Rightarrow> vec list list" where
  "unitField w h = replicate w (replicate h (1, 0))"

subsection \<open>Concrete inputs\<close>

text \<open>A point as \<^verbatim>\<open>generateGrid\<close> pushes it: no travel time yet.\<close>

definition gridPoint :: "string \<Rightarrow> coord \<Rightarrow> GridPoint" where
  "gridPoint name c =
     \<lparr> point_id = name, coordinates = c, originalCoordinates = Some c,
       travelTime = None, animationProgress = None \<rparr>"

definition pointA :: GridPoint where
  "pointA = gridPoint ''point-0'' (0, 0)"

definition pointB :: GridPoint where
  "pointB = gridPoint ''point-1'' (1, 0)"

definition pointC :: GridPoint where
  "pointC = gridPoint ''point-2'' (0, 1)"

text \<open>Three points with the travel times 5, 15 and 25 minutes.\<close>

definition timedPoints :: "GridPoint list" where
  "timedPoints = [pointA\<lparr>travelTime := Some 5\<rparr>, pointB\<lparr>travelTime := Some 15\<rparr>,
                  pointC\<lparr>travelTime := Some 25\<rparr>]"

text \<open>The travel times between two points that are 2 minutes apart.\<close>

definition twoMinutes :: "real list list" where
  "twoMinutes = [[0, 2], [2, 0]]"

text \<open>Two stand-ins for the geometry library: one that never fails, one whose hull throws.\<close>

definition passTurf :: "(coord list) turf" where
  "passTurf = \<lparr> turf_convex = (\<lambda>coords. Inr (Some coords)),
                turf_buffer = (\<lambda>poly radius. Inr (Some poly)),
                outer_ring = (\<lambda>poly. Inr poly),
                turf_area = (\<lambda>poly. Inr 0) \<rparr>"

definition throwingTurf :: "(coord list) turf" where
  "throwingTurf = passTurf\<lparr> turf_convex := (\<lambda>coords. Inl GeometryError) \<rparr>"

text \<open>Options with step 0.1, at most 1000 steps and a given line length.\<close>

definition shortOptions :: "real \<Rightarrow> StreamlineOptions" where
  "shortOptions l =
     \<lparr> stepSize_opt = Some (1 / 10), maxSteps_opt = Some 1000, lineLength_opt = Some l \<rparr>"

text \<open>From every seed of the bounds \<open>(0, 0, 10, 10)\<close>, one step of 0.1 along \<open>x\<close>.\<close>

definition oneStepLines :: "vec list list" where
  "oneStepLines =
     map (\<lambda>seed. [seed, (fst seed + 1 / 10, snd seed)]) (seedPoints (0, 0, 10, 10))"

text \<open>The doubles nearest to 1 / 60 and to 1 / 10, the literal \<^verbatim>\<open>0.1\<close>.\<close>

definition sixtieth :: real where
  "sixtieth = 4803839602528529 / 2 ^ 58"

definition tenth :: real where
  "tenth = 3602879701896397 / 2 ^ 55"

text \<open>
  The seed \<open>(5, 5)\<close> and ten steps of 0.1 along \<open>x\<close> in double precision: 5, 5.1,
  5.199999999999999, and so on to 5.9999999999999964.
\<close>

definition elevenPoints :: "vec list" where
  "elevenPoints =
     map (\<lambda>n. (n / 2 ^ 50, 5))
       [5629499534213120,
        5742089524897382,
        5854679515581644,
        5967269506265906,
        6079859496950168,
        6192449487634430,
        6305039478318692,
        6417629469002954,
        6530219459687216,
        6642809450371478,
        6755399441055740]"

text \<open>
  The seed \<open>(1, 5)\<close> and nine steps of 0.1 along \<open>x\<close> in double precision: 1, 1.1,
  1.2000000000000002, and so on to 1.9000000000000008.
\<close>

definition tenPoints :: "vec list" where
  "tenPoints =
     map (\<lambda>n. (n / 2 ^ 52, 5))
       [4503599627370496,
        4953959590107546,
        5404319552844596,
        5854679515581646,
        6305039478318696,
        6755399441055746,
        7205759403792796,
        7656119366529846,
        8106479329266896,
        8556839292003946]"



section \<open>Properties\<close>

subsection \<open>Numbers and arrays\<close>

lemma reduceSum_sum_list: "reduceSum xs = sum_list xs"
proof -
  have "foldl (+) a xs = a + sum_list xs" for a :: real
    by (induction xs arbitrary: a) (simp_all add: add.assoc)
  then show ?thesis by (simp add: reduceSum_def)
qed

lemma fold_max_Max: "fold max xs (x::real) = Max (set (x # xs))"
  using Max.set_eq_fold [of x xs] by simp

lemma fold_min_Min: "fold min xs (x::real) = Min (set (x # xs))"
  using Min.set_eq_fold [of x xs] by simp

lemma mathMax_nonempty: "xs \<noteq> [] \<Longrightarrow> mathMax xs = Fin (Max (set xs))"
  by (cases xs) (simp_all add: fold_max_Max del: set_simps)

lemma mathMin_nonempty: "xs \<noteq> [] \<Longrightarrow> mathMin xs = Fin (Min (set xs))"
  by (cases xs) (simp_all add: fold_min_Min del: set_simps)

lemma Max_real_nat: "xs \<noteq> [] \<Longrightarrow> Max (set (map real xs)) = real (Max (set xs))"
  using mono_Max_commute [of real "set xs"] by (simp add: mono_def)

lemma mapThrow_Inr_iff:
  "mapThrow f xs = Inr ys \<longleftrightarrow>
     length ys = length xs \<and> (\<forall>k<length xs. f (xs ! k) = Inr (ys ! k))"
proof (induction xs arbitrary: ys)
  case Nil
  then show ?case by auto
next
  case (Cons x xs)
  show ?case
  proof (cases ys)
    case Nil
    then show ?thesis by (auto split: sum.splits)
  next
    case (Cons y ys')
    show ?thesis
      unfolding Cons using Cons.IH [of ys']
      by (auto simp: nth_Cons less_Suc_eq_0_disj split: sum.splits nat.splits)
  qed
qed

lemma mapThrow_all_return:
  "(\<And>x. x \<in> set xs \<Longrightarrow> \<exists>y. f x = Inr y) \<Longrightarrow>
   \<exists>ys. mapThrow f xs = Inr ys \<and> length ys = length xs \<and>
        (\<forall>k<length xs. f (xs ! k) = Inr (ys ! k))"
proof (induction xs)
  case Nil
  then show ?case by simp
next
  case (Cons x xs)
  from Cons.prems obtain y where y: "f x = Inr y" by auto
  from Cons obtain ys where ys: "mapThrow f xs = Inr ys" "length ys = length xs"
    "\<forall>k<length xs. f (xs ! k) = Inr (ys ! k)" by auto
  show ?case using y ys by (auto simp: nth_Cons split: nat.splits)
qed

lemmas example_defs = timedPoints_def pointA_def pointB_def pointC_def gridPoint_def

subsection \<open>Double precision\<close>

text \<open>
  Rounding is within half a unit of the last place, which is at most \<open>2 ^ -53\<close> of
  the number; it keeps 0, the sign and the powers of 2, and \<open>double_eqI\<close> computes
  it: the exponent from the binade of \<open>x\<close>, the significand from the nearest integer.
\<close>

lemma rne_err: "\<bar>of_int (rne q) - q\<bar> \<le> 1 / 2"
proof -
  have "of_int \<lfloor>q\<rfloor> \<le> q" "q < of_int \<lfloor>q\<rfloor> + 1" by linarith+
  then show ?thesis by (auto simp: rne_def Let_def)
qed

lemma rne_eqI:
  assumes "\<bar>q - of_int n\<bar> < 1 / 2"
  shows "rne q = n"
proof -
  have f: "of_int \<lfloor>q\<rfloor> \<le> q" "q < of_int \<lfloor>q\<rfloor> + 1" by linarith+
  consider "\<lfloor>q\<rfloor> = n" | "\<lfloor>q\<rfloor> = n - 1"
  proof -
    have "real_of_int n - 1 / 2 < q" "q < real_of_int n + 1 / 2" using assms by linarith+
    then have "n - 1 \<le> \<lfloor>q\<rfloor>" "\<lfloor>q\<rfloor> \<le> n" by (simp_all add: le_floor_iff floor_le_iff)
    then have "\<lfloor>q\<rfloor> = n \<or> \<lfloor>q\<rfloor> = n - 1" by linarith
    then show ?thesis using that by blast
  qed
  then show ?thesis
  proof cases
    case 1
    then have "q - of_int \<lfloor>q\<rfloor> < 1 / 2" using assms by linarith
    then show ?thesis using 1 by (simp add: rne_def Let_def)
  next
    case 2
    from assms have "real_of_int n - 1 / 2 < q" by linarith
    then have "1 / 2 < q - of_int (n - 1)" by simp
    then have "1 / 2 < q - of_int \<lfloor>q\<rfloor>" using 2 by simp
    then show ?thesis using 2 by (simp add: rne_def Let_def)
  qed
qed

lemma rne_ge: "of_int n \<le> q \<Longrightarrow> n \<le> rne q"
proof -
  assume "of_int n \<le> q"
  then have "n \<le> \<lfloor>q\<rfloor>" by (simp add: le_floor_iff)
  then show ?thesis by (auto simp: rne_def Let_def)
qed

lemma rne_le: "q \<le> of_int n \<Longrightarrow> rne q \<le> n"
proof -
  assume a: "q \<le> of_int n"
  show ?thesis
  proof (cases "q = of_int n")
    case True
    then show ?thesis by (simp add: rne_def)
  next
    case False
    with a have "q < of_int n" by simp
    then have "\<lfloor>q\<rfloor> < n" by (simp add: floor_less_iff)
    then show ?thesis by (auto simp: rne_def Let_def)
  qed
qed

lemma two_powr: "(2::real) powr real_of_int k = 2 powi k"
  by (simp add: powr_real_of_int')

lemma floor_log2_iff:
  assumes "0 < x"
  shows "\<lfloor>log 2 x\<rfloor> = k \<longleftrightarrow> 2 powi k \<le> x \<and> x < 2 powi (k + 1)"
proof -
  have "\<lfloor>log 2 x\<rfloor> = k \<longleftrightarrow> 2 powr (real_of_int k) \<le> x \<and> x < 2 powr (real_of_int (k + 1))"
    using floor_log_eq_powr_iff [OF assms, of 2 k] by simp
  then show ?thesis unfolding two_powr .
qed

lemma expo_bounds:
  assumes "x \<noteq> 0"
  shows "2 powi (expo x + 52) \<le> \<bar>x\<bar>" and "\<bar>x\<bar> < 2 powi (expo x + 53)"
proof -
  have p: "0 < \<bar>x\<bar>" using assms by simp
  have "\<lfloor>log 2 \<bar>x\<bar>\<rfloor> = expo x + 52" by (simp add: expo_def)
  then have "2 powi (expo x + 52) \<le> \<bar>x\<bar> \<and> \<bar>x\<bar> < 2 powi (expo x + 52 + 1)"
    unfolding floor_log2_iff [OF p] .
  moreover have "expo x + 52 + 1 = expo x + 53" by simp
  ultimately show "2 powi (expo x + 52) \<le> \<bar>x\<bar>" and "\<bar>x\<bar> < 2 powi (expo x + 53)"
    by simp_all
qed

lemma expo_eqI:
  assumes "2 powi (k + 52) \<le> \<bar>x\<bar>" "\<bar>x\<bar> < 2 powi (k + 53)"
  shows "expo x = k"
proof -
  have "0 < (2::real) powi (k + 52)" by simp
  with assms(1) have p: "0 < \<bar>x\<bar>" by linarith
  have e: "k + 52 + 1 = k + 53" by simp
  have "2 powi (k + 52) \<le> \<bar>x\<bar> \<and> \<bar>x\<bar> < 2 powi (k + 52 + 1)"
    unfolding e using assms by (rule conjI)
  then have "\<lfloor>log 2 \<bar>x\<bar>\<rfloor> = k + 52"
    unfolding floor_log2_iff [OF p] .
  then show ?thesis by (simp add: expo_def)
qed

lemma double_eqI:
  assumes "2 powi (k + 52) \<le> \<bar>x\<bar>" "\<bar>x\<bar> < 2 powi (k + 53)"
    and "\<bar>x / 2 powi k - of_int n\<bar> < 1 / 2"
  shows "double x = of_int n * 2 powi k"
proof -
  have e: "expo x = k" by (rule expo_eqI [OF assms(1,2)])
  have pos: "0 < (2::real) powi (k + 52)" by simp
  have nz: "x \<noteq> 0"
  proof
    assume "x = 0"
    with assms(1) pos show False by simp
  qed
  show ?thesis
    using rne_eqI [OF assms(3)] nz by (simp add: double_def e)
qed

lemma double_0: "double 0 = 0"
  by (simp add: double_def)

lemma double_err_ulp:
  assumes "x \<noteq> 0"
  shows "\<bar>double x - x\<bar> \<le> 2 powi expo x / 2"
proof -
  let ?u = "(2::real) powi expo x"
  have u: "0 < ?u" by simp
  have "double x - x = (of_int (rne (x / ?u)) - x / ?u) * ?u"
    using assms u by (simp add: double_def field_simps)
  then have "\<bar>double x - x\<bar> = \<bar>of_int (rne (x / ?u)) - x / ?u\<bar> * ?u"
    using u by (simp add: abs_mult)
  also have "\<dots> \<le> 1 / 2 * ?u"
    using rne_err [of "x / ?u"] u by (intro mult_right_mono) auto
  finally show ?thesis by simp
qed

lemma ulp_le: 
  assumes "x \<noteq> 0"
  shows "2 powi expo x / 2 \<le> \<bar>x\<bar> / 2 ^ 53"
proof -
  have "(2::real) powi (expo x + 52) = 2 powi expo x * 2 ^ 52"
    by (simp add: power_int_add)
  with expo_bounds(1) [OF assms] have "2 powi expo x * 2 ^ 52 \<le> \<bar>x\<bar>" by simp
  then show ?thesis by (simp add: field_simps)
qed

lemma double_err: "\<bar>double x - x\<bar> \<le> \<bar>x\<bar> / 2 ^ 53"
proof (cases "x = 0")
  case True
  then show ?thesis by (simp add: double_0)
next
  case False
  from double_err_ulp [OF False] ulp_le [OF False] show ?thesis by linarith
qed

lemma double_abs_ge:
  assumes "x \<noteq> 0"
  shows "2 powi (expo x + 52) \<le> \<bar>double x\<bar>"
proof -
  let ?u = "(2::real) powi expo x"
  have u: "0 < ?u" by simp
  have s: "(2::real) powi (expo x + 52) = 2 ^ 52 * ?u" by (simp add: power_int_add)
  have q: "2 ^ 52 \<le> \<bar>x / ?u\<bar>"
    using expo_bounds(1) [OF assms] u unfolding s by (simp add: field_simps abs_mult)
  have "2 ^ 52 \<le> \<bar>rne (x / ?u)\<bar>"
  proof (cases "0 \<le> x / ?u")
    case True
    then have "of_int (2 ^ 52) \<le> x / ?u" using q by simp
    from rne_ge [OF this] show ?thesis by simp
  next
    case False
    then have "x / ?u \<le> of_int (- (2 ^ 52))" using q by simp
    from rne_le [OF this] show ?thesis by simp
  qed
  then have "real_of_int (2 ^ 52) \<le> real_of_int \<bar>rne (x / ?u)\<bar>"
    by (simp only: of_int_le_iff)
  then have "2 ^ 52 \<le> \<bar>real_of_int (rne (x / ?u))\<bar>" by simp
  then have "2 ^ 52 * ?u \<le> \<bar>real_of_int (rne (x / ?u))\<bar> * ?u"
    using u by (intro mult_right_mono) auto
  then show ?thesis using assms u unfolding s by (simp add: double_def abs_mult)
qed

lemma double_err_result: "\<bar>double x - x\<bar> \<le> \<bar>double x\<bar> / 2 ^ 53"
proof (cases "x = 0")
  case True
  then show ?thesis by (simp add: double_0)
next
  case False
  have "(2::real) powi (expo x + 52) = 2 powi expo x * 2 ^ 52"
    by (simp add: power_int_add)
  with double_abs_ge [OF False] have "2 powi expo x * 2 ^ 52 \<le> \<bar>double x\<bar>" by simp
  then have "2 powi expo x / 2 \<le> \<bar>double x\<bar> / 2 ^ 53" by (simp add: field_simps)
  with double_err_ulp [OF False] show ?thesis by linarith
qed

lemma expo_twice: "x \<noteq> 0 \<Longrightarrow> expo (2 * x) = expo x + 1"
proof -
  assume nz: "x \<noteq> 0"
  have a: "(2::real) powi (expo x + 1 + 52) = 2 * 2 powi (expo x + 52)"
    and b: "(2::real) powi (expo x + 1 + 53) = 2 * 2 powi (expo x + 53)"
    by (simp_all add: power_int_add)
  have c: "\<bar>2 * x\<bar> = 2 * \<bar>x\<bar>" by (simp add: abs_mult)
  show ?thesis
  proof (rule expo_eqI)
    show "2 powi (expo x + 1 + 52) \<le> \<bar>2 * x\<bar>"
      unfolding a c using expo_bounds(1) [OF nz] by linarith
    show "\<bar>2 * x\<bar> < 2 powi (expo x + 1 + 53)"
      unfolding b c using expo_bounds(2) [OF nz] by linarith
  qed
qed

lemma double_twice: "double (2 * x) = 2 * double x"
proof (cases "x = 0")
  case True
  then show ?thesis by (simp add: double_0)
next
  case False
  have "(2::real) powi (expo x + 1) = 2 * 2 powi expo x" by (simp add: power_int_add)
  then show ?thesis using False by (simp add: double_def expo_twice)
qed

lemma double_1: "double 1 = 1"
  using double_eqI [of "- 52" 1 "2 ^ 52"] by simp

lemma double_near:
  assumes "0 \<le> x"
  shows "x * (1 - 1 / 2 ^ 53) \<le> double x" and "double x \<le> x * (1 + 1 / 2 ^ 53)"
proof -
  have "\<bar>double x - x\<bar> \<le> x / 2 ^ 53"
    using double_err [of x] assms by simp
  then have "x - x / 2 ^ 53 \<le> double x" and "double x \<le> x + x / 2 ^ 53"
    by linarith+
  then show "x * (1 - 1 / 2 ^ 53) \<le> double x" and "double x \<le> x * (1 + 1 / 2 ^ 53)"
    by (simp_all add: algebra_simps)
qed

lemma double_nonneg:
  assumes "0 \<le> x"
  shows "0 \<le> double x"
proof -
  have "0 \<le> x * (1 - 1 / 2 ^ 53)"
    using assms by (intro mult_nonneg_nonneg) simp_all
  with double_near(1) [OF assms] show ?thesis by linarith
qed

lemma double_slack:
  assumes "0 \<le> x"
  shows "x * (999999999 / 1000000000) \<le> double x"
    and "double x \<le> x * (1000000001 / 1000000000)"
proof -
  have "x / 2 ^ 53 \<le> x / 1000000000"
    using assms by (intro divide_left_mono) simp_all
  moreover have "\<bar>double x - x\<bar> \<le> x / 2 ^ 53"
    using double_err [of x] assms by simp
  ultimately have "\<bar>double x - x\<bar> \<le> x / 1000000000" by linarith
  then show "x * (999999999 / 1000000000) \<le> double x"
    and "double x \<le> x * (1000000001 / 1000000000)"
    by linarith+
qed

text \<open>With the identity for the rounding, the rounded functions are the exact ones.\<close>

lemma jsround_exact: "jsround (\<lambda>x. x) v = v"
  by (cases v) simp_all

lemma interpolateVectorR_exact:
  "interpolateVectorR (\<lambda>x. x) vf b w h x y = interpolateVector vf b w h x y"
  by (simp add: interpolateVectorR_def interpolateVector_def jsround_exact)

lemma integrateLoopR_exact:
  "integrateLoopR (\<lambda>x. x) vf b w h s L n x y line = integrateLoop vf b w h s L n x y line"
proof (induction n arbitrary: x y line)
  case 0
  show ?case by simp
next
  case (Suc n)
  obtain b0 b1 b2 b3 where b: "b = (b0, b1, b2, b3)" by (cases b)
  show ?case
    using Suc.IH
    by (simp add: interpolateVectorR_exact Let_def b split: sum.splits option.splits)
qed

lemma integrateLineR_exact:
  "integrateLineR (\<lambda>x. x) vf b w h s m L x y = integrateLine vf b w h s m L x y"
  by (simp add: integrateLineR_def integrateLine_def integrateLoopR_exact)

lemma generateTimeMatrixR_exact:
  "generateTimeMatrixR (\<lambda>x. x) distance points = generateTimeMatrix distance points"
  by (simp add: generateTimeMatrixR_def generateTimeMatrix_def)

lemma distortPointR_exact:
  "distortPointR (\<lambda>x. x) exactLibm points timeMatrix f entry = distortPoint points timeMatrix f entry"
  by (cases entry)
    (simp add: distortPointR_def distortPoint_def reduceSumR_def reduceSum_def exactLibm_def Let_def
      split: list.splits)

lemma distortPointsR_exact:
  "distortPointsR (\<lambda>x. x) exactLibm points timeMatrix F = distortPoints points timeMatrix F"
  by (simp add: distortPointsR_def distortPoints_def distortPointR_exact [abs_def])

text \<open>Some doubles.\<close>

lemma double_2: "double 2 = 2"
  using double_twice [of 1] by (simp add: double_1)

lemma double_sixtieth: "double (1 / 60) = sixtieth"
  unfolding sixtieth_def using double_eqI [of "- 58" "1 / 60" 4803839602528529] by simp

lemma double_sixtieth_fix: "double sixtieth = sixtieth"
  unfolding sixtieth_def
  using double_eqI [of "- 58" "4803839602528529 / 2 ^ 58" 4803839602528529] by simp

lemma double_one_sixtieth: "double (1 + sixtieth) = 1 + 75059993789508 / 2 ^ 52"
  unfolding sixtieth_def
  using double_eqI [of "- 52" "1 + 4803839602528529 / 2 ^ 58" 4578659621160004] by simp

lemma double_one_two_sixtieth: "double (1 + 2 * sixtieth) = 1 + 150119987579017 / 2 ^ 52"
  unfolding sixtieth_def
  using double_eqI [of "- 52" "1 + 2 * (4803839602528529 / 2 ^ 58)" 4653719614949513] by simp

lemma double_tenth: "double (1 / 10) = tenth"
  unfolding tenth_def using double_eqI [of "- 56" "1 / 10" 7205759403792794] by simp

lemma double_tenth_fix: "double tenth = tenth"
  unfolding tenth_def
  using double_eqI [of "- 56" "3602879701896397 / 2 ^ 55" 7205759403792794] by simp

lemma double_5: "double 5 = 5"
  using double_eqI [of "- 50" 5 5629499534213120] by simp

lemma tenth_near: "0 < tenth" "\<bar>tenth - 1 / 10\<bar> \<le> 1 / 2 ^ 32"
  by (simp_all add: tenth_def)

lemma double_ten_tenths: "double (10 * tenth) = 1"
  unfolding tenth_def
  using double_eqI [of "- 52" "10 * (3602879701896397 / 2 ^ 55)" "2 ^ 52"] by simp

lemma double_millionth: "\<not> 1 < double (1 / 1000000)"
  using double_slack(2) [of "1 / 1000000"] by simp





subsection \<open>Isochrone bands\<close>

lemma isochroneBand_returns:
  "\<exists>b. isochroneBand T points t = Inr b \<and> threshold b = t \<and>
       ((length (accessiblePoints points t) < 3 \<or>
         geometryFails T (map coordinates (accessiblePoints points t)))
        \<longrightarrow> coordinates_b b = [])"
  by (auto simp: isochroneBand_def isochroneTry_def geometryFails_def Let_def
      split: sum.splits option.splits)

text \<open>
  Claim C6. For every point list and every list of thresholds, \<open>calculateIsochrones\<close>
  returns (it does not throw) exactly one band per threshold, in the order of the
  thresholds. The band of a threshold \<open>t\<close> is \<open>{t, []}\<close> whenever fewer than 3 points
  have a travel time of at most \<open>t\<close>, and whenever the geometry fails for \<open>t\<close>: a null
  hull, a null buffer, or an exception thrown by the library.
\<close>

theorem calculateIsochrones_one_band_per_threshold:
  "\<exists>bands. calculateIsochrones T points timeThresholds = Inr bands \<and>
     map threshold bands = timeThresholds \<and>
     (\<forall>k<length timeThresholds.
        (length (accessiblePoints points (timeThresholds ! k)) < 3 \<or>
         geometryFails T (map coordinates (accessiblePoints points (timeThresholds ! k))))
        \<longrightarrow> coordinates_b (bands ! k) = [])"
proof -
  have "\<And>t. t \<in> set timeThresholds \<Longrightarrow> \<exists>b. isochroneBand T points t = Inr b"
    using isochroneBand_returns by blast
  from mapThrow_all_return [of timeThresholds "isochroneBand T points", OF this]
  obtain bands where b: "mapThrow (isochroneBand T points) timeThresholds = Inr bands"
    "length bands = length timeThresholds"
    "\<forall>k<length timeThresholds. isochroneBand T points (timeThresholds ! k) = Inr (bands ! k)"
    by blast
  have th: "threshold (bands ! k) = timeThresholds ! k" if "k < length timeThresholds" for k
    using isochroneBand_returns [of T points "timeThresholds ! k"] b(3) that by auto
  have "map threshold bands = timeThresholds"
    by (rule nth_equalityI) (simp_all add: b(2) th)
  moreover have "coordinates_b (bands ! k) = []"
    if "k < length timeThresholds"
      "length (accessiblePoints points (timeThresholds ! k)) < 3 \<or>
         geometryFails T (map coordinates (accessiblePoints points (timeThresholds ! k)))" for k
    using isochroneBand_returns [of T points "timeThresholds ! k"] b(3) that by auto
  ultimately show ?thesis using b(1) by (auto simp: calculateIsochrones_def)
qed

text \<open>
  The three timed points and the thresholds 10, 20 and 30: one and two points are
  within 10 and 20 minutes, so these bands are empty; with a library whose hull
  throws, the band of 30 is empty as well.
\<close>

theorem calculateIsochrones_one_band_per_threshold_witness:
  "(\<exists>bands. calculateIsochrones passTurf timedPoints [10, 20, 30] = Inr bands \<and>
      map threshold bands = [10, 20, 30] \<and>
      coordinates_b (bands ! 0) = [] \<and> coordinates_b (bands ! 1) = []) \<and>
   (\<exists>bands. calculateIsochrones throwingTurf timedPoints [10, 20, 30] = Inr bands \<and>
      map threshold bands = [10, 20, 30] \<and> coordinates_b (bands ! 2) = [])"
proof
  have a0: "length (accessiblePoints timedPoints ([10, 20, 30] ! 0)) < 3"
    by (simp add: accessiblePoints_def travelTimeOr0_def example_defs)
  have a1: "length (accessiblePoints timedPoints ([10, 20, 30] ! 1)) < 3"
    by (simp add: accessiblePoints_def travelTimeOr0_def example_defs)
  obtain bands where b: "calculateIsochrones passTurf timedPoints [10, 20, 30] = Inr bands \<and>
     map threshold bands = [10, 20, 30] \<and>
     (\<forall>k<length [10, 20, 30 :: real].
        (length (accessiblePoints timedPoints ([10, 20, 30] ! k)) < 3 \<or>
         geometryFails passTurf (map coordinates (accessiblePoints timedPoints ([10, 20, 30] ! k))))
        \<longrightarrow> coordinates_b (bands ! k) = [])"
    using calculateIsochrones_one_band_per_threshold [of passTurf timedPoints "[10, 20, 30]"] ..
  note c = b [THEN conjunct2, THEN conjunct2, rule_format]
  have "coordinates_b (bands ! 0) = []" by (rule c [of 0]) (simp, rule disjI1, rule a0)
  moreover have "coordinates_b (bands ! 1) = []" by (rule c [of 1]) (simp, rule disjI1, rule a1)
  ultimately show "\<exists>bands. calculateIsochrones passTurf timedPoints [10, 20, 30] = Inr bands \<and>
      map threshold bands = [10, 20, 30] \<and>
      coordinates_b (bands ! 0) = [] \<and> coordinates_b (bands ! 1) = []"
    using b by (intro exI [of _ bands]) simp
next
  have g: "geometryFails throwingTurf
             (map coordinates (accessiblePoints timedPoints ([10, 20, 30] ! 2)))"
    by (simp add: geometryFails_def throwingTurf_def)
  obtain bands where b: "calculateIsochrones throwingTurf timedPoints [10, 20, 30] = Inr bands \<and>
     map threshold bands = [10, 20, 30] \<and>
     (\<forall>k<length [10, 20, 30 :: real].
        (length (accessiblePoints timedPoints ([10, 20, 30] ! k)) < 3 \<or>
         geometryFails throwingTurf
           (map coordinates (accessiblePoints timedPoints ([10, 20, 30] ! k))))
        \<longrightarrow> coordinates_b (bands ! k) = [])"
    using calculateIsochrones_one_band_per_threshold [of throwingTurf timedPoints "[10, 20, 30]"] ..
  note c = b [THEN conjunct2, THEN conjunct2, rule_format]
  have "coordinates_b (bands ! 2) = []" by (rule c [of 2]) (simp, rule disjI2, rule g)
  then show "\<exists>bands. calculateIsochrones throwingTurf timedPoints [10, 20, 30] = Inr bands \<and>
      map threshold bands = [10, 20, 30] \<and> coordinates_b (bands ! 2) = []"
    using b by (intro exI [of _ bands]) simp
qed

subsection \<open>An absent travel time\<close>


lemma connectedTo_member:
  assumes "j < length points" "i \<noteq> j" "travelTimeOr0 (points ! j) < t"
  shows "(points ! j, j) \<in> set (connectedTo points t i)"
proof -
  have "(points ! j, j) \<in> set (zip points [0..<length points])"
    using assms(1) by (auto simp: set_zip intro!: exI [of _ j])
  then show ?thesis using assms by (simp add: connectedTo_def)
qed










subsection \<open>Heatmap intensities\<close>

text \<open>
  Claim C4, as the code has it. For every non-empty point list, with \<open>value\<close> the
  travel time of a point (0 when absent) and \<open>min\<close>, \<open>max\<close> taken over the list
  itself: when \<open>max \<noteq> min\<close> each point gets the intensity
  \<open>(value - min) / (max - min)\<close>, which is 0 for a point holding the minimum and 1
  for a point holding the maximum; when \<open>max = min\<close> the quotient is \<open>0 / 0\<close> and every
  intensity is NaN.
\<close>

theorem generateHeatmapData_normalises:
  assumes "points \<noteq> []"
  shows "length (generateHeatmapData points) = length points \<and>
         (\<forall>i<length points.
            coordinates_h (generateHeatmapData points ! i) = coordinates (points ! i) \<and>
            intensity (generateHeatmapData points ! i) =
              (if Max (set (map travelTimeOr0 points)) = Min (set (map travelTimeOr0 points))
               then NaN
               else Fin ((travelTimeOr0 (points ! i) - Min (set (map travelTimeOr0 points)))
                         / (Max (set (map travelTimeOr0 points))
                            - Min (set (map travelTimeOr0 points))))) \<and>
            (Max (set (map travelTimeOr0 points)) \<noteq> Min (set (map travelTimeOr0 points)) \<longrightarrow>
               (travelTimeOr0 (points ! i) = Min (set (map travelTimeOr0 points)) \<longrightarrow>
                  intensity (generateHeatmapData points ! i) = Fin 0) \<and>
               (travelTimeOr0 (points ! i) = Max (set (map travelTimeOr0 points)) \<longrightarrow>
                  intensity (generateHeatmapData points ! i) = Fin 1)))"
proof -
  let ?vs = "map travelTimeOr0 points"
  have ne: "?vs \<noteq> []" using assms by simp
  have mx: "mathMax ?vs = Fin (Max (set ?vs))" by (rule mathMax_nonempty [OF ne])
  have mn: "mathMin ?vs = Fin (Min (set ?vs))" by (rule mathMin_nonempty [OF ne])
  have le: "Min (set ?vs) \<le> travelTimeOr0 (points ! i)" if "i < length points" for i
    using that by (intro Min_le) auto
  have deg: "travelTimeOr0 (points ! i) = Min (set ?vs)"
    if "i < length points" "Max (set ?vs) = Min (set ?vs)" for i
  proof -
    have "travelTimeOr0 (points ! i) \<le> Max (set ?vs)"
      using that(1) by (intro Max_ge) auto
    with le [OF that(1)] that(2) show ?thesis by simp
  qed
  show ?thesis
    using deg by (simp add: generateHeatmapData_def Let_def mx mn del: set_map)
qed

text \<open>The travel times 5, 15 and 25 give the intensities 0, 1 / 2 and 1.\<close>

theorem generateHeatmapData_normalises_witness:
  "timedPoints \<noteq> [] \<and>
   intensity (generateHeatmapData timedPoints ! 0) = Fin 0 \<and>
   intensity (generateHeatmapData timedPoints ! 1) = Fin (1 / 2) \<and>
   intensity (generateHeatmapData timedPoints ! 2) = Fin 1"
proof -
  have ne: "timedPoints \<noteq> []" by (simp add: timedPoints_def)
  have l: "length timedPoints = 3" by (simp add: timedPoints_def)
  have vs: "map travelTimeOr0 timedPoints = [5, 15, 25]"
    by (simp add: travelTimeOr0_def example_defs)
  have v: "travelTimeOr0 (timedPoints ! 0) = 5" "travelTimeOr0 (timedPoints ! 1) = 15"
    "travelTimeOr0 (timedPoints ! 2) = 25"
    by (simp_all add: travelTimeOr0_def example_defs)
  note t = generateHeatmapData_normalises [OF ne, THEN conjunct2, rule_format, unfolded vs l]
  from t [of 0] t [of 1] t [of 2] ne v show ?thesis by simp
qed

text \<open>
  A single sample is a constant sample set: its intensity is NaN, not 0.
\<close>

theorem generateHeatmapData_constant_counterexample:
  "map intensity (generateHeatmapData [pointA\<lparr>travelTime := Some 5\<rparr>]) = [NaN]"
  by (simp add: generateHeatmapData_def travelTimeOr0_def)

subsection \<open>Centrality\<close>

text \<open>
  Claim C5, as the code has it. For every non-empty point list, \<open>findCentralPoints\<close>
  returns one number per point: when the largest connectivity is not 0, the
  connectivity of the point divided by the largest connectivity; when every
  connectivity is 0, the quotient is \<open>0 / 0\<close> and every number is NaN.
\<close>

theorem findCentralPoints_normalises:
  assumes "points \<noteq> []"
  shows "length (findCentralPoints points timeThreshold) = length points \<and>
         (\<forall>i<length points.
            findCentralPoints points timeThreshold ! i =
              (if Max (set (calculateConnectivity points timeThreshold)) = 0 then NaN
               else Fin (real (calculateConnectivity points timeThreshold ! i)
                         / real (Max (set (calculateConnectivity points timeThreshold))))))"
proof -
  let ?c = "calculateConnectivity points timeThreshold"
  have len: "length ?c = length points" by (simp add: calculateConnectivity_def)
  then have ne: "?c \<noteq> []" using assms by auto
  have mx: "mathMax (map real ?c) = Fin (real (Max (set ?c)))"
    using ne by (simp add: mathMax_nonempty Max_real_nat del: set_map)
  have z: "?c ! i = 0" if "i < length points" "Max (set ?c) = 0" for i
  proof -
    have "?c ! i \<le> Max (set ?c)" using that(1) len by (intro Max_ge) auto
    then show ?thesis using that(2) by simp
  qed
  show ?thesis
    using z by (simp add: findCentralPoints_def Let_def mx)
qed

text \<open>
  Under the default threshold of 20 minutes the three timed points have the
  connectivities 1, 1 and 2, hence the centralities 1 / 2, 1 / 2 and 1.
\<close>

theorem findCentralPoints_normalises_witness:
  "timedPoints \<noteq> [] \<and>
   findCentralPoints timedPoints None ! 0 = Fin (1 / 2) \<and>
   findCentralPoints timedPoints None ! 2 = Fin 1"
proof -
  have ne: "timedPoints \<noteq> []" by (simp add: timedPoints_def)
  have l: "length timedPoints = 3" by (simp add: timedPoints_def)
  have c: "calculateConnectivity timedPoints None = [1, 1, 2]"
    by (simp add: calculateConnectivity_def connectedTo_def thresholdOr20_def travelTimeOr0_def
        example_defs upt_conv_Cons)
  note t = findCentralPoints_normalises [OF ne, of None, THEN conjunct2, rule_format, unfolded c l]
  from t [of 0] t [of 2] ne show ?thesis by simp
qed

text \<open>A single point has no other point to be connected to: its centrality is NaN, not 0.\<close>

theorem findCentralPoints_isolated_counterexample:
  "calculateConnectivity [pointA\<lparr>travelTime := Some 5\<rparr>] None = [0] \<and>
   findCentralPoints [pointA\<lparr>travelTime := Some 5\<rparr>] None = [NaN]"
  by (simp add: findCentralPoints_def calculateConnectivity_def connectedTo_def)

subsection \<open>Coverage\<close>

text \<open>
  What \<open>calculateAreaCoverage\<close> itself contributes to the growth of the coverage with
  the threshold: the admitted points grow with the threshold, and the result is 0
  when fewer than 3 points are admitted, when the hull is null and when the library
  throws. The area of the hull is the library's.
\<close>

lemma accessiblePoints_mono:
  assumes "t1 \<le> t2"
  shows "set (accessiblePoints points t1) \<subseteq> set (accessiblePoints points t2) \<and>
         length (accessiblePoints points t1) \<le> length (accessiblePoints points t2)"
proof
  show "set (accessiblePoints points t1) \<subseteq> set (accessiblePoints points t2)"
    using assms by (auto simp: accessiblePoints_def)
  have "accessiblePoints points t1 = filter (\<lambda>p. travelTimeOr0 p \<le> t1) (accessiblePoints points t2)"
    using assms by (auto simp: accessiblePoints_def intro!: filter_cong)
  then show "length (accessiblePoints points t1) \<le> length (accessiblePoints points t2)"
    by (metis length_filter_le)
qed

lemma calculateAreaCoverage_returns:
  "\<exists>a. calculateAreaCoverage T points t = Inr a"
  by (simp add: calculateAreaCoverage_def Let_def split: sum.splits)

lemma calculateAreaCoverage_zero:
  assumes "length (accessiblePoints points t) < 3 \<or>
           turf_convex T (map coordinates (accessiblePoints points t)) = Inr None \<or>
           (\<exists>e. turf_convex T (map coordinates (accessiblePoints points t)) = Inl e)"
  shows "calculateAreaCoverage T points t = Inr 0"
  using assms by (auto simp: calculateAreaCoverage_def areaTry_def Let_def)

lemma calculateAreaCoverage_area:
  assumes "\<not> length (accessiblePoints points t) < 3"
    and "turf_convex T (map coordinates (accessiblePoints points t)) = Inr (Some hullPoly)"
    and "turf_area T hullPoly = Inr a"
  shows "calculateAreaCoverage T points t = Inr (a * (3861 / 10000000000))"
  using assms by (simp add: calculateAreaCoverage_def areaTry_def Let_def)

subsection \<open>Streamlines: how far a line can go\<close>

lemma integrateLoop_steps:
  "integrateLoop vf b w h s L n x y line = Inr l \<Longrightarrow>
   length line \<le> length l \<and> length l \<le> length line + n"
proof (induction n arbitrary: x y line)
  case 0
  then show ?case by simp
next
  case (Suc n)
  show ?case
  proof (cases "interpolateVector vf b w h x y")
    case (Inl e)
    with Suc.prems show ?thesis by simp
  next
    case (Inr ov)
    show ?thesis
    proof (cases ov)
      case None
      with Inr Suc.prems show ?thesis by simp
    next
      case (Some v)
      obtain b0 b1 b2 b3 where b: "b = (b0, b1, b2, b3)" by (cases b) auto
      let ?m = "sqrt (fst v * fst v + snd v * snd v)"
      let ?x = "x + fst v / ?m * s"
      let ?y = "y + snd v / ?m * s"
      show ?thesis
      proof (cases "?m < 1 / 1000000 \<or> ?x < b0 \<or> ?x > b2 \<or> ?y < b1 \<or> ?y > b3")
        case True
        with Inr Some b Suc.prems show ?thesis by (auto simp: Let_def split: if_splits)
      next
        case False
        show ?thesis
        proof (cases "real (length (line @ [(?x, ?y)])) * s > L")
          case True
          with False Inr Some b Suc.prems show ?thesis by (auto simp: Let_def)
        next
          case nb: False
          with False Inr Some b Suc.prems
          have "integrateLoop vf b w h s L n ?x ?y (line @ [(?x, ?y)]) = Inr l"
            by (auto simp: Let_def)
          from Suc.IH [OF this] show ?thesis by simp
        qed
      qed
    qed
  qed
qed

lemma stay_bound:
  assumes "0 \<le> s" "0 \<le> L" "length line = 1 \<or> real (length line) * s \<le> L"
  shows "real (length line - 1) * s \<le> L + s"
  using assms(3)
proof
  assume "length line = 1" then show ?thesis using assms(1,2) by simp
next
  assume a: "real (length line) * s \<le> L"
  have "real (length line - 1) * s \<le> real (length line) * s"
    using assms(1) by (intro mult_right_mono) auto
  with a assms(1) show ?thesis by linarith
qed

text \<open>
  The invariant of the loop: the line is the seed alone, or its length passed the
  test \<open>length * stepSize > lineLength\<close> at the end of the last iteration.
\<close>

lemma integrateLoop_length:
  assumes "0 \<le> s" "0 \<le> L"
    and "length line = 1 \<or> real (length line) * s \<le> L"
    and "integrateLoop vf b w h s L n x y line = Inr l"
  shows "real (length l - 1) * s \<le> L + s"
  using assms(3,4)
proof (induction n arbitrary: x y line)
  case 0
  then have "l = line" by simp
  with stay_bound [OF assms(1,2) 0(1)] show ?case by simp
next
  case (Suc n)
  have stay: "real (length line - 1) * s \<le> L + s"
    by (rule stay_bound [OF assms(1,2) Suc.prems(1)])
  have push: "real (length line) * s \<le> L + s"
    using Suc.prems(1) assms(1,2) by auto
  show ?case
  proof (cases "interpolateVector vf b w h x y")
    case (Inl e)
    with Suc.prems show ?thesis by simp
  next
    case (Inr ov)
    show ?thesis
    proof (cases ov)
      case None
      with Inr Suc.prems stay show ?thesis by simp
    next
      case (Some v)
      obtain b0 b1 b2 b3 where b: "b = (b0, b1, b2, b3)" by (cases b) auto
      let ?m = "sqrt (fst v * fst v + snd v * snd v)"
      let ?x = "x + fst v / ?m * s"
      let ?y = "y + snd v / ?m * s"
      show ?thesis
      proof (cases "?m < 1 / 1000000 \<or> ?x < b0 \<or> ?x > b2 \<or> ?y < b1 \<or> ?y > b3")
        case True
        with Inr Some b Suc.prems(2) have "l = line" by (auto simp: Let_def split: if_splits)
        with stay show ?thesis by simp
      next
        case False
        show ?thesis
        proof (cases "real (length (line @ [(?x, ?y)])) * s > L")
          case True
          with False Inr Some b Suc.prems(2) have "l = line @ [(?x, ?y)]" by (auto simp: Let_def)
          with push show ?thesis by simp
        next
          case nb: False
          with False Inr Some b Suc.prems(2)
          have r: "integrateLoop vf b w h s L n ?x ?y (line @ [(?x, ?y)]) = Inr l"
            by (auto simp: Let_def)
          from nb have "length (line @ [(?x, ?y)]) = 1 \<or>
              real (length (line @ [(?x, ?y)])) * s \<le> L"
            by simp
          from Suc.IH [OF this r] show ?thesis .
        qed
      qed
    qed
  qed
qed

lemma traceSeeds_lines:
  "traceSeeds vf b w h s m L seeds acc = Inr lines \<Longrightarrow> line \<in> set lines \<Longrightarrow>
   line \<in> set acc \<or>
   (\<exists>seed \<in> set seeds.
      integrateLine vf b w h s m L (fst seed) (snd seed) = Inr line \<and> 1 < length line)"
proof (induction seeds arbitrary: acc)
  case Nil
  then show ?case by simp
next
  case (Cons seed seeds)
  from Cons.prems(1) obtain l
    where l: "integrateLine vf b w h s m L (fst seed) (snd seed) = Inr l"
      and r: "traceSeeds vf b w h s m L seeds (if length l > 1 then acc @ [l] else acc) = Inr lines"
    by (auto split: sum.splits)
  from Cons.IH [OF r Cons.prems(2)] l show ?case
    by (auto split: if_splits)
qed

lemma traceSeeds_all:
  assumes "\<And>seed. seed \<in> set seeds \<Longrightarrow>
      integrateLine vf b w h s m L (fst seed) (snd seed) = Inr (f seed) \<and> 1 < length (f seed)"
  shows "traceSeeds vf b w h s m L seeds acc = Inr (acc @ map f seeds)"
  using assms by (induction seeds arbitrary: acc) simp_all

lemma createStreamlines_Cons:
  "vectorField = row0 # rows \<Longrightarrow>
   createStreamlines vectorField bounds options =
     traceSeeds vectorField bounds (length vectorField) (length row0) (stepSizeOf options)
       (maxStepsOf options) (lineLengthOf options) (seedPoints bounds) []"
  by (simp add: createStreamlines_def Let_def)

subsection \<open>Streamlines: a field that points along x\<close>

lemma arrayGet_replicate:
  assumes "0 \<le> i" "i < int n"
  shows "arrayGet (replicate n v) (Fin (of_int i)) = Some v"
  using assms by simp

lemma scaled_index:
  fixes x lo hi :: real
  assumes "lo \<le> x" "x < hi" "2 \<le> n"
  shows "0 \<le> \<lfloor>(x - lo) / (hi - lo) * (real n - 1)\<rfloor> \<and>
         \<lfloor>(x - lo) / (hi - lo) * (real n - 1)\<rfloor> < int n - 1"
proof -
  let ?r = "(x - lo) / (hi - lo)"
  have r0: "0 \<le> ?r" using assms by simp
  have r1: "?r < 1" using assms by simp
  have n1: "0 < real n - 1" using assms by simp
  define v where "v = ?r * (real n - 1)"
  have v0: "0 \<le> v" unfolding v_def using r0 n1 by (intro mult_nonneg_nonneg) auto
  have "?r * (real n - 1) < 1 * (real n - 1)" by (rule mult_strict_right_mono [OF r1 n1])
  then have v1: "v < of_int (int n - 1)" unfolding v_def by simp
  have "0 \<le> \<lfloor>v\<rfloor>" using v0 by simp
  moreover have "\<lfloor>v\<rfloor> < int n - 1" using v1 by (simp only: floor_less_iff)
  ultimately show ?thesis unfolding v_def by blast
qed

lemma interpolateVector_uniform:
  assumes "b0 \<le> x" "x < b2" "b1 \<le> y" "y < b3" "2 \<le> w" "2 \<le> h"
  shows "interpolateVector (replicate w (replicate h v)) (b0, b1, b2, b3) w h x y = Inr (Some v)"
proof -
  let ?i = "\<lfloor>(x - b0) / (b2 - b0) * (real w - 1)\<rfloor>"
  let ?j = "\<lfloor>(y - b1) / (b3 - b1) * (real h - 1)\<rfloor>"
  have i: "0 \<le> ?i" "?i < int w - 1" using scaled_index [OF assms(1,2,5)] by auto
  have j: "0 \<le> ?j" "?j < int h - 1" using scaled_index [OF assms(3,4,6)] by auto
  have ne: "b2 - b0 \<noteq> 0" "b3 - b1 \<noteq> 0" using assms by auto
  have ci: "jsfloor (jsmul (jsdiv (Fin (x - b0)) (Fin (b2 - b0))) (Fin (real w - 1)))
              = Fin (of_int ?i)"
    using ne by simp
  have cj: "jsfloor (jsmul (jsdiv (Fin (y - b1)) (Fin (b3 - b1))) (Fin (real h - 1)))
              = Fin (of_int ?j)"
    using ne by simp
  have gi: "\<not> jslt (Fin (of_int ?i)) (Fin 0)" "\<not> jsge (Fin (of_int ?i)) (Fin (real w - 1))"
    using i by (auto simp del: of_int_floor_cancel)
  have gj: "\<not> jslt (Fin (of_int ?j)) (Fin 0)" "\<not> jsge (Fin (of_int ?j)) (Fin (real h - 1))"
    using j by (auto simp del: of_int_floor_cancel)
  have ai: "arrayGet (replicate w (replicate h v)) (Fin (of_int ?i)) = Some (replicate h v)"
    using i by (intro arrayGet_replicate) auto
  have aj: "arrayGet (replicate h v) (Fin (of_int ?j)) = Some v"
    using j by (intro arrayGet_replicate) auto
  show ?thesis
    unfolding interpolateVector_def Let_def prod.case ci cj
    using gi gj ai aj by simp
qed

lemma unit_x_step:
  assumes "interpolateVector vf (b0, b1, b2, b3) w h x y = Inr (Some (1, 0))"
    and "b0 \<le> x + s" "x + s \<le> b2" "b1 \<le> y" "y \<le> b3"
  shows "integrateLoop vf (b0, b1, b2, b3) w h s L (Suc n) x y line =
           (if real (length line + 1) * s > L then Inr (line @ [(x + s, y)])
            else integrateLoop vf (b0, b1, b2, b3) w h s L n (x + s) y (line @ [(x + s, y)]))"
  using assms by (simp add: Let_def)

text \<open>
  Where the sampled vector is \<open>(1, 0)\<close> along the way and the way stays inside the
  bounds, the loop adds one point per step until the length test stops it: \<open>N\<close> is
  the number of steps after which \<open>(N + 1) * stepSize\<close> first exceeds the line length.
\<close>

lemma unit_x_run:
  fixes N :: nat
  assumes samp: "\<And>c. c < N \<Longrightarrow>
        interpolateVector vf (b0, b1, b2, b3) w h (sx + real c * s) sy = Inr (Some (1, 0))"
    and inb: "\<And>c. 1 \<le> c \<Longrightarrow> c \<le> N \<Longrightarrow> b0 \<le> sx + real c * s \<and> sx + real c * s \<le> b2"
    and iny: "b1 \<le> sy" "sy \<le> b3"
    and cont: "\<And>c. 2 \<le> c \<Longrightarrow> c \<le> N \<Longrightarrow> real c * s \<le> L"
    and stop: "real (N + 1) * s > L"
    and k: "k < N" "N - k \<le> n"
  shows "integrateLoop vf (b0, b1, b2, b3) w h s L n (sx + real k * s) sy
           (map (\<lambda>c. (sx + real c * s, sy)) [0..<Suc k])
         = Inr (map (\<lambda>c. (sx + real c * s, sy)) [0..<Suc N])"
  using k
proof (induction n arbitrary: k)
  case 0
  then show ?case by simp
next
  case (Suc n)
  let ?pt = "\<lambda>c. (sx + real c * s, sy)"
  have nx: "sx + real k * s + s = sx + real (Suc k) * s" by (simp add: algebra_simps)
  have b: "b0 \<le> sx + real k * s + s" "sx + real k * s + s \<le> b2"
    using inb [of "Suc k"] Suc.prems(1) unfolding nx by auto
  have ext: "map ?pt [0..<Suc k] @ [(sx + real k * s + s, sy)] = map ?pt [0..<Suc (Suc k)]"
    unfolding nx by simp
  note step = unit_x_step [OF samp [OF Suc.prems(1)] b iny, of L n "map ?pt [0..<Suc k]"]
  show ?case
  proof (cases "Suc k = N")
    case True
    then have "real (length (map ?pt [0..<Suc k]) + 1) * s > L" using stop by simp
    then show ?thesis unfolding step ext using True by simp
  next
    case False
    then have lt: "Suc k < N" using Suc.prems(1) by simp
    then have "real (Suc (Suc k)) * s \<le> L" by (intro cont) auto
    then have "\<not> real (length (map ?pt [0..<Suc k]) + 1) * s > L" by simp
    moreover have "N - Suc k \<le> n" using Suc.prems(2) by simp
    ultimately show ?thesis
      unfolding step ext nx using Suc.IH [OF lt] by simp
  qed
qed

lemma seedPoints_mem:
  "seed \<in> set (seedPoints (b0, b1, b2, b3)) \<longleftrightarrow>
     (\<exists>i<10. \<exists>j<10. seed =
        (b0 + (b2 - b0) * (real i + 1 / 2) / 10, b1 + (b3 - b1) * (real j + 1 / 2) / 10))"
  unfolding seedPoints_def prod.case set_concat set_map image_image
  by (simp only: UN_iff image_iff set_upt Bex_def atLeastLessThan_iff le0 simp_thms)

lemma unitField_Cons:
  "0 < w \<Longrightarrow> unitField w h = replicate h (1, 0) # replicate (w - 1) (replicate h (1, 0))"
  by (cases w) (simp_all add: unitField_def)

lemma length_unitField: "length (unitField w h) = w"
  by (simp add: unitField_def)

lemma one_step_line:
  assumes "L < 1 / 5" "0 \<le> x" "x \<le> 19 / 2" "0 \<le> y" "y \<le> 19 / 2"
  shows "integrateLine (unitField 2 2) (0, 0, 10, 10) 2 2 (1 / 10) 1000 L x y
         = Inr [(x, y), (x + 1 / 10, y)]"
proof -
  have "integrateLoop (unitField 2 2) (0, 0, 10, 10) 2 2 (1 / 10) L 1000
           (x + real (0::nat) * (1 / 10)) y
           (map (\<lambda>c. (x + real c * (1 / 10), y)) [0..<Suc 0])
         = Inr (map (\<lambda>c. (x + real c * (1 / 10), y)) [0..<Suc 1])"
  proof (rule unit_x_run)
    fix c :: nat assume "c < 1"
    then show "interpolateVector (unitField 2 2) (0, 0, 10, 10) 2 2 (x + real c * (1 / 10)) y
        = Inr (Some (1, 0))"
      unfolding unitField_def using assms by (intro interpolateVector_uniform) auto
  next
    fix c :: nat assume "1 \<le> c" "c \<le> 1"
    then have "c = 1" by simp
    then show "0 \<le> x + real c * (1 / 10) \<and> x + real c * (1 / 10) \<le> 10" using assms by simp
  next
    fix c :: nat assume "2 \<le> c" "c \<le> 1"
    then show "real c * (1 / 10) \<le> L" by simp
  qed (use assms in auto)
  then show ?thesis by (simp add: integrateLine_def)
qed

lemma one_step_streamlines:
  assumes "L < 1 / 5"
  shows "createStreamlines (unitField 2 2) (0, 0, 10, 10) (shortOptions L) = Inr oneStepLines"
proof -
  have seed: "integrateLine (unitField 2 2) (0, 0, 10, 10) 2 2 (1 / 10) 1000 L (fst seed) (snd seed)
        = Inr [seed, (fst seed + 1 / 10, snd seed)] \<and>
      1 < length [seed, (fst seed + 1 / 10, snd seed)]"
    if "seed \<in> set (seedPoints (0, 0, 10, 10))" for seed
  proof -
    from that obtain i j :: nat where ij: "i < 10" "j < 10"
      and s: "seed = (real i + 1 / 2, real j + 1 / 2)"
      unfolding seedPoints_mem by auto
    have "real i \<le> 9" "real j \<le> 9" using ij by auto
    then show ?thesis
      using one_step_line [OF assms, of "fst seed" "snd seed"] s by simp
  qed
  have "traceSeeds (unitField 2 2) (0, 0, 10, 10) 2 2 (1 / 10) 1000 L (seedPoints (0, 0, 10, 10)) []
        = Inr ([] @ map (\<lambda>seed. [seed, (fst seed + 1 / 10, snd seed)]) (seedPoints (0, 0, 10, 10)))"
    by (rule traceSeeds_all) (use seed in blast)
  then show ?thesis
    unfolding createStreamlines_Cons [OF unitField_Cons [of 2 2, simplified]]
    by (simp add: shortOptions_def stepSizeOf_def maxStepsOf_def lineLengthOf_def
        length_unitField oneStepLines_def)
qed

lemma first_seed_line: "[(1 / 2, 1 / 2), (3 / 5, 1 / 2)] \<in> set oneStepLines"
proof -
  have "(1 / 2, 1 / 2) \<in> set (seedPoints (0, 0, 10, 10))"
    unfolding seedPoints_mem by (intro exI [of _ 0]) simp
  then have "[(1 / 2, 1 / 2),
       (fst (1 / 2 :: real, 1 / 2 :: real) + 1 / 10, snd (1 / 2 :: real, 1 / 2 :: real))]
      \<in> set oneStepLines"
    unfolding oneStepLines_def set_map by (rule imageI)
  then show ?thesis by simp
qed

text \<open>
  Claim C2, as the code has it. For every vector field, bounds and options with a
  positive step size and a line length that is not negative, every line that
  \<open>createStreamlines\<close> returns has more than one point, was integrated in at most
  \<open>maxSteps\<close> steps (a step adds a point to the seed), and the length it traversed,
  the number of its steps times the step size, is at most \<open>lineLength + stepSize\<close>.
  The loop is a recursion on the number of iterations left, \<open>maxSteps\<close> at the start.
\<close>

theorem createStreamlines_bounded:
  assumes "createStreamlines vectorField bounds options = Inr streamlines"
    and "line \<in> set streamlines"
    and "0 < stepSizeOf options" and "0 \<le> lineLengthOf options"
  shows "1 < length line \<and> length line - 1 \<le> maxStepsOf options \<and>
         real (length line - 1) * stepSizeOf options \<le> lineLengthOf options + stepSizeOf options"
proof -
  from assms(1) obtain row0 rows where vf: "vectorField = row0 # rows"
    by (cases vectorField) (auto simp: createStreamlines_def Let_def)
  let ?w = "length vectorField" and ?h = "length row0"
  from assms(1) vf
  have "traceSeeds vectorField bounds ?w ?h (stepSizeOf options) (maxStepsOf options)
      (lineLengthOf options) (seedPoints bounds) [] = Inr streamlines"
    by (simp add: createStreamlines_def Let_def)
  from traceSeeds_lines [OF this assms(2)]
  obtain seed where il: "integrateLine vectorField bounds ?w ?h (stepSizeOf options)
      (maxStepsOf options) (lineLengthOf options) (fst seed) (snd seed) = Inr line"
    and len: "1 < length line"
    by auto
  from il have loop: "integrateLoop vectorField bounds ?w ?h (stepSizeOf options)
       (lineLengthOf options) (maxStepsOf options) (fst seed) (snd seed) [(fst seed, snd seed)]
       = Inr line"
    by (simp add: integrateLine_def)
  from integrateLoop_steps [OF loop] have "length line - 1 \<le> maxStepsOf options" by auto
  moreover from integrateLoop_length [OF _ assms(4) _ loop] assms(3)
  have "real (length line - 1) * stepSizeOf options \<le> lineLengthOf options + stepSizeOf options"
    by simp
  ultimately show ?thesis using len by simp
qed

text \<open>
  A field of 2 by 2 cells that points along \<open>x\<close>, the bounds \<open>(0, 0, 10, 10)\<close>, step 0.1
  and line length 0.1: every seed makes one step, and the line of the first seed
  meets the three bounds.
\<close>

theorem createStreamlines_bounded_witness:
  "createStreamlines (unitField 2 2) (0, 0, 10, 10) (shortOptions (1 / 10)) = Inr oneStepLines \<and>
   [(1 / 2, 1 / 2), (3 / 5, 1 / 2)] \<in> set oneStepLines \<and>
   0 < stepSizeOf (shortOptions (1 / 10)) \<and> 0 \<le> lineLengthOf (shortOptions (1 / 10)) \<and>
   length [(1 / 2, 1 / 2), (3 / 5, 1 / 2) :: vec] - 1 \<le> maxStepsOf (shortOptions (1 / 10)) \<and>
   real (length [(1 / 2, 1 / 2), (3 / 5, 1 / 2) :: vec] - 1) * stepSizeOf (shortOptions (1 / 10))
       \<le> lineLengthOf (shortOptions (1 / 10)) + stepSizeOf (shortOptions (1 / 10))"
proof -
  have r: "createStreamlines (unitField 2 2) (0, 0, 10, 10) (shortOptions (1 / 10))
             = Inr oneStepLines"
    by (rule one_step_streamlines) simp
  have s: "0 < stepSizeOf (shortOptions (1 / 10))"
    by (simp add: shortOptions_def stepSizeOf_def)
  have l: "0 \<le> lineLengthOf (shortOptions (1 / 10))"
    by (simp add: shortOptions_def lineLengthOf_def)
  from createStreamlines_bounded [OF r first_seed_line s l] r first_seed_line s l
  show ?thesis by simp
qed

text \<open>
  The same field with the line length -1: the step size is positive, every seed
  still makes one step, and the returned line of the first seed has traversed 0.1,
  which exceeds \<open>lineLength + stepSize = -0.9\<close>.
\<close>

theorem createStreamlines_negative_lineLength_counterexample:
  "createStreamlines (unitField 2 2) (0, 0, 10, 10) (shortOptions (- 1)) = Inr oneStepLines \<and>
   [(1 / 2, 1 / 2), (3 / 5, 1 / 2)] \<in> set oneStepLines \<and>
   0 < stepSizeOf (shortOptions (- 1)) \<and>
   \<not> real (length [(1 / 2, 1 / 2), (3 / 5, 1 / 2) :: vec] - 1) * stepSizeOf (shortOptions (- 1))
       \<le> lineLengthOf (shortOptions (- 1)) + stepSizeOf (shortOptions (- 1))"
  using one_step_streamlines [of "- 1"] first_seed_line
  by (simp add: shortOptions_def stepSizeOf_def lineLengthOf_def)

subsection \<open>Streamlines in double precision\<close>

text \<open>
  The index of the cell stays inside the field while the point is within 96 percent
  of the way across the bounds: the four roundings move the quotient by less.
\<close>

lemma ratio_index:
  assumes a: "0 \<le> a" "a \<le> (96 / 100) * d" and d: "0 < d" and n: "2 \<le> n"
  shows "0 \<le> \<lfloor>double (double (double a / double d) * (real n - 1))\<rfloor> \<and>
         \<lfloor>double (double (double a / double d) * (real n - 1))\<rfloor> < int n - 1"
proof -
  have A0: "0 \<le> double a" using a(1) by (rule double_nonneg)
  have A1: "double a \<le> a * (1000000001 / 1000000000)" using a(1) by (rule double_slack)
  have D1: "d * (999999999 / 1000000000) \<le> double d" using d by (intro double_slack) simp
  have Dp: "0 < double d" using D1 d by linarith
  define q where "q = double a / double d"
  have q0: "0 \<le> q" unfolding q_def using A0 Dp by simp
  have "double a \<le> (97 / 100) * double d" using A1 D1 a(2) d by linarith
  then have q1: "q \<le> 97 / 100" unfolding q_def using Dp by (simp add: field_simps)
  define r where "r = double q"
  have r0: "0 \<le> r" unfolding r_def using q0 by (rule double_nonneg)
  have "r \<le> q * (1000000001 / 1000000000)" unfolding r_def using q0 by (rule double_slack)
  with q1 have r1: "r \<le> 98 / 100" by linarith
  define m where "m = real n - 1"
  have m: "0 < m" unfolding m_def using n by simp
  define v where "v = r * m"
  have v0: "0 \<le> v" unfolding v_def using r0 m by (intro mult_nonneg_nonneg) simp_all
  have "r * m \<le> (98 / 100) * m"
    using r1 m by (intro mult_right_mono) simp_all
  then have v1: "v \<le> (98 / 100) * m" unfolding v_def .
  define z where "z = double v"
  have z0: "0 \<le> z" unfolding z_def using v0 by (rule double_nonneg)
  have "z \<le> v * (1000000001 / 1000000000)" unfolding z_def using v0 by (rule double_slack)
  with v1 m have "z < m" by linarith
  then have z1: "z < of_int (int n - 1)" unfolding m_def by simp
  have "0 \<le> \<lfloor>z\<rfloor>" using z0 by simp
  moreover have "\<lfloor>z\<rfloor> < int n - 1" using z1 by (simp only: floor_less_iff)
  ultimately show ?thesis unfolding z_def v_def r_def q_def m_def by blast
qed

lemma interpolateVectorR_uniform:
  assumes x: "b0 \<le> x" "x - b0 \<le> (96 / 100) * (b2 - b0)" "b0 < b2"
    and y: "b1 \<le> y" "y - b1 \<le> (96 / 100) * (b3 - b1)" "b1 < b3"
    and n: "2 \<le> w" "2 \<le> h"
  shows "interpolateVectorR double (replicate w (replicate h v)) (b0, b1, b2, b3) w h x y
           = Inr (Some v)"
proof -
  let ?i = "\<lfloor>double (double (double (x - b0) / double (b2 - b0)) * (real w - 1))\<rfloor>"
  let ?j = "\<lfloor>double (double (double (y - b1) / double (b3 - b1)) * (real h - 1))\<rfloor>"
  have i: "0 \<le> ?i" "?i < int w - 1"
    using ratio_index [of "x - b0" "b2 - b0" w] x n by auto
  have j: "0 \<le> ?j" "?j < int h - 1"
    using ratio_index [of "y - b1" "b3 - b1" h] y n by auto
  have "(b2 - b0) * (999999999 / 1000000000) \<le> double (b2 - b0)"
    using x(3) by (intro double_slack) simp
  then have nx: "double (b2 - b0) \<noteq> 0" using x(3) by auto
  have "(b3 - b1) * (999999999 / 1000000000) \<le> double (b3 - b1)"
    using y(3) by (intro double_slack) simp
  then have ny: "double (b3 - b1) \<noteq> 0" using y(3) by auto
  have ci: "jsfloor (jsround double (jsmul
              (jsround double (jsdiv (Fin (double (x - b0))) (Fin (double (b2 - b0)))))
              (Fin (real w - 1)))) = Fin (of_int ?i)"
    using nx by simp
  have cj: "jsfloor (jsround double (jsmul
              (jsround double (jsdiv (Fin (double (y - b1))) (Fin (double (b3 - b1)))))
              (Fin (real h - 1)))) = Fin (of_int ?j)"
    using ny by simp
  have gi: "\<not> jslt (Fin (of_int ?i)) (Fin 0)" "\<not> jsge (Fin (of_int ?i)) (Fin (real w - 1))"
    using i by (auto simp del: of_int_floor_cancel)
  have gj: "\<not> jslt (Fin (of_int ?j)) (Fin 0)" "\<not> jsge (Fin (of_int ?j)) (Fin (real h - 1))"
    using j by (auto simp del: of_int_floor_cancel)
  have ai: "arrayGet (replicate w (replicate h v)) (Fin (of_int ?i)) = Some (replicate h v)"
    using i by (intro arrayGet_replicate) auto
  have aj: "arrayGet (replicate h v) (Fin (of_int ?j)) = Some v"
    using j by (intro arrayGet_replicate) auto
  show ?thesis
    unfolding interpolateVectorR_def Let_def prod.case ci cj
    using gi gj ai aj by simp
qed

lemma unit_x_stepR:
  assumes "interpolateVectorR double vf (b0, b1, b2, b3) w h x y = Inr (Some (1, 0))"
    and "double s = s" "double y = y"
    and "b0 \<le> double (x + s)" "double (x + s) \<le> b2" "b1 \<le> y" "y \<le> b3"
  shows "integrateLoopR double vf (b0, b1, b2, b3) w h s L (Suc n) x y line =
           (if double (real (length line + 1) * s) > L then Inr (line @ [(double (x + s), y)])
            else integrateLoopR double vf (b0, b1, b2, b3) w h s L n (double (x + s)) y
                   (line @ [(double (x + s), y)]))"
  using assms by (simp add: Let_def double_0 double_1 double_millionth)

lemma unit_x_runR:
  fixes N :: nat
  assumes samp: "\<And>c. c < N \<Longrightarrow>
        interpolateVectorR double vf (b0, b1, b2, b3) w h (stepsAlong double s sx c) sy
          = Inr (Some (1, 0))"
    and dbl: "double s = s" "double sy = sy"
    and inb: "\<And>c. 1 \<le> c \<Longrightarrow> c \<le> N \<Longrightarrow>
        b0 \<le> stepsAlong double s sx c \<and> stepsAlong double s sx c \<le> b2"
    and iny: "b1 \<le> sy" "sy \<le> b3"
    and cont: "\<And>c. 2 \<le> c \<Longrightarrow> c \<le> N \<Longrightarrow> \<not> double (real c * s) > L"
    and stop: "double (real (N + 1) * s) > L"
    and k: "k < N" "N - k \<le> n"
  shows "integrateLoopR double vf (b0, b1, b2, b3) w h s L n (stepsAlong double s sx k) sy
           (map (\<lambda>c. (stepsAlong double s sx c, sy)) [0..<Suc k])
         = Inr (map (\<lambda>c. (stepsAlong double s sx c, sy)) [0..<Suc N])"
  using k
proof (induction n arbitrary: k)
  case 0
  then show ?case by simp
next
  case (Suc n)
  let ?pt = "\<lambda>c. (stepsAlong double s sx c, sy)"
  have nx: "double (stepsAlong double s sx k + s) = stepsAlong double s sx (Suc k)" by simp
  have b: "b0 \<le> double (stepsAlong double s sx k + s)"
          "double (stepsAlong double s sx k + s) \<le> b2"
    using inb [of "Suc k"] Suc.prems(1) unfolding nx by auto
  have ext: "map ?pt [0..<Suc k] @ [(double (stepsAlong double s sx k + s), sy)]
               = map ?pt [0..<Suc (Suc k)]"
    unfolding nx by simp
  note step = unit_x_stepR [OF samp [OF Suc.prems(1)] dbl b iny, of L n "map ?pt [0..<Suc k]"]
  show ?case
  proof (cases "Suc k = N")
    case True
    then have "double (real (length (map ?pt [0..<Suc k]) + 1) * s) > L" using stop by simp
    then show ?thesis unfolding step ext using True by simp
  next
    case False
    then have lt: "Suc k < N" using Suc.prems(1) by simp
    then have "\<not> double (real (Suc (Suc k)) * s) > L" by (intro cont) auto
    then have "\<not> double (real (length (map ?pt [0..<Suc k]) + 1) * s) > L" by simp
    moreover have "N - Suc k \<le> n" using Suc.prems(2) by simp
    ultimately show ?thesis
      unfolding step ext nx using Suc.IH [OF lt] by simp
  qed
qed

lemma unit_x_exitR:
  assumes "interpolateVectorR double vf (b0, b1, b2, b3) w h x y = Inr (Some (1, 0))"
    and "double s = s" "double y = y"
    and "double (x + s) > b2"
  shows "integrateLoopR double vf (b0, b1, b2, b3) w h s L (Suc n) x y line = Inr line"
  using assms by (simp add: Let_def double_0 double_1 double_millionth)

lemma unit_x_leaveR:
  fixes N :: nat
  assumes samp: "\<And>c. c \<le> N \<Longrightarrow>
        interpolateVectorR double vf (b0, b1, b2, b3) w h (stepsAlong double s sx c) sy
          = Inr (Some (1, 0))"
    and dbl: "double s = s" "double sy = sy"
    and inb: "\<And>c. 1 \<le> c \<Longrightarrow> c \<le> N \<Longrightarrow>
        b0 \<le> stepsAlong double s sx c \<and> stepsAlong double s sx c \<le> b2"
    and iny: "b1 \<le> sy" "sy \<le> b3"
    and out: "stepsAlong double s sx (Suc N) > b2"
    and cont: "\<And>c. 2 \<le> c \<Longrightarrow> c \<le> N + 1 \<Longrightarrow> \<not> double (real c * s) > L"
    and k: "k \<le> N" "N - k < n"
  shows "integrateLoopR double vf (b0, b1, b2, b3) w h s L n (stepsAlong double s sx k) sy
           (map (\<lambda>c. (stepsAlong double s sx c, sy)) [0..<Suc k])
         = Inr (map (\<lambda>c. (stepsAlong double s sx c, sy)) [0..<Suc N])"
  using k
proof (induction n arbitrary: k)
  case 0
  then show ?case by simp
next
  case (Suc n)
  let ?pt = "\<lambda>c. (stepsAlong double s sx c, sy)"
  have nx: "double (stepsAlong double s sx k + s) = stepsAlong double s sx (Suc k)" by simp
  show ?case
  proof (cases "k = N")
    case True
    have o: "double (stepsAlong double s sx k + s) > b2" using out True by simp
    show ?thesis
      using unit_x_exitR [OF samp [OF Suc.prems(1)] dbl o, of L n "map ?pt [0..<Suc k]"] True
      by simp
  next
    case False
    then have lt: "Suc k \<le> N" using Suc.prems(1) by simp
    have b: "b0 \<le> double (stepsAlong double s sx k + s)"
            "double (stepsAlong double s sx k + s) \<le> b2"
      using inb [of "Suc k"] lt unfolding nx by auto
    have ext: "map ?pt [0..<Suc k] @ [(double (stepsAlong double s sx k + s), sy)]
                 = map ?pt [0..<Suc (Suc k)]"
      unfolding nx by simp
    note step = unit_x_stepR [OF samp [OF Suc.prems(1)] dbl b iny, of L n "map ?pt [0..<Suc k]"]
    have "\<not> double (real (Suc (Suc k)) * s) > L" using lt by (intro cont) auto
    then have "\<not> double (real (length (map ?pt [0..<Suc k]) + 1) * s) > L" by simp
    moreover have "N - Suc k < n" using Suc.prems(2) lt by simp
    ultimately show ?thesis
      unfolding step ext nx using Suc.IH [OF lt] by simp
  qed
qed

text \<open>Ten rounded steps of 0.1 stay within \<open>10 / 2 ^ 31\<close> of the exact positions.\<close>

lemma stepsAlong_drift:
  assumes "\<bar>sx\<bar> \<le> 2 ^ 20" "k \<le> 10"
  shows "\<bar>stepsAlong double tenth sx k - (sx + real k / 10)\<bar> \<le> real k / 2 ^ 31"
  using assms(2)
proof (induction k)
  case 0
  show ?case by simp
next
  case (Suc k)
  define p where "p = stepsAlong double tenth sx k"
  define e where "e = real k / 2 ^ 31"
  define c where "c = real k / 10"
  have k: "real k \<le> 9" using Suc.prems by simp
  have e: "0 \<le> e" "e \<le> 1 / 2 ^ 20" unfolding e_def using k by simp_all
  have c: "0 \<le> c" "c \<le> 1" unfolding c_def using k by simp_all
  have ih: "\<bar>p - (sx + c)\<bar> \<le> e"
    unfolding p_def e_def c_def using Suc.IH Suc.prems by simp
  have sx: "\<bar>sx\<bar> \<le> 1048576" using assms(1) by simp
  have t: "0 < tenth" "\<bar>tenth - 1 / 10\<bar> \<le> 1 / 4294967296"
    using tenth_near by simp_all
  have e': "e \<le> 1 / 1048576" using e(2) by simp
  have "\<bar>p + tenth\<bar> \<le> 2097152" using ih sx t c e(1) e' by linarith
  then have "\<bar>p + tenth\<bar> / 2 ^ 53 \<le> 2097152 / 2 ^ 53" by (intro divide_right_mono) simp_all
  with double_err [of "p + tenth"] have r: "\<bar>double (p + tenth) - (p + tenth)\<bar> \<le> 1 / 4294967296"
    by simp
  have main: "\<bar>double (p + tenth) - (sx + (c + 1 / 10))\<bar> \<le> e + 2 / 4294967296"
    using r ih t by linarith
  have a: "real (Suc k) / 10 = c + 1 / 10" unfolding c_def by simp
  have b: "real (Suc k) / 2 ^ 31 = e + 2 / 4294967296" unfolding e_def by simp
  have s: "stepsAlong double tenth sx (Suc k) = double (p + tenth)" unfolding p_def by simp
  show ?case unfolding s a b by (rule main)
qed

text \<open>
  The length test \<^verbatim>\<open>line.length * stepSize > lineLength\<close> for the step 0.1 and the
  length 1: ten times 0.1 rounds to 1, eleven times 0.1 is more.
\<close>

lemma length_test_continues:
  assumes "2 \<le> c" "c \<le> 10"
  shows "\<not> double (real c * tenth) > 1"
proof (cases "c = 10")
  case True
  then show ?thesis by (simp add: double_ten_tenths)
next
  case False
  then have "real c \<le> 9" using assms by simp
  then have "real c * tenth \<le> 9 * tenth" using tenth_near(1) by (intro mult_right_mono) simp_all
  moreover have "0 \<le> real c * tenth" using tenth_near(1) by simp
  then have "double (real c * tenth) \<le> real c * tenth * (1000000001 / 1000000000)"
    by (rule double_slack)
  moreover have "9 * tenth \<le> 91 / 100" by (simp add: tenth_def)
  ultimately show ?thesis by linarith
qed

lemma length_test_stops: "double (real (10 + 1) * tenth) > 1"
proof -
  have "11 * tenth * (999999999 / 1000000000) \<le> double (11 * tenth)"
    using tenth_near(1) by (intro double_slack) simp
  moreover have "1 < 11 * tenth * (999999999 / 1000000000)" by (simp add: tenth_def)
  ultimately show ?thesis by simp
qed

lemma ten_steps_rounded:
  assumes "2 \<le> w" "2 \<le> h" "10 \<le> maxSteps"
    and "b1 < b3" "b0 + 22 / 10 \<le> b2"
    and "sx = (b0 + b2) / 2" "sy = (b1 + b3) / 2" "double sy = sy" "\<bar>sx\<bar> \<le> 2 ^ 20"
  shows "integrateLoopR double (replicate w (replicate h (1, 0))) (b0, b1, b2, b3) w h tenth 1
           maxSteps (stepsAlong double tenth sx 0) sy
           (map (\<lambda>c. (stepsAlong double tenth sx c, sy)) [0..<Suc 0])
         = Inr (map (\<lambda>c. (stepsAlong double tenth sx c, sy)) [0..<Suc 10])"
proof -
  let ?vf = "replicate w (replicate h (1::real, 0::real))"
  have near: "sx \<le> stepsAlong double tenth sx c \<and> stepsAlong double tenth sx c \<le> sx + 101 / 100"
    if "c \<le> 10" for c
  proof -
    define q where "q = real c"
    have q: "0 \<le> q" "q \<le> 10" unfolding q_def using that by simp_all
    then have "q / 2 ^ 31 \<le> q / 1000" by (intro divide_left_mono) simp_all
    with stepsAlong_drift [OF assms(9) that]
    have "\<bar>stepsAlong double tenth sx c - (sx + q / 10)\<bar> \<le> q / 1000"
      unfolding q_def by linarith
    with q show ?thesis by linarith
  qed
  have samp: "interpolateVectorR double ?vf (b0, b1, b2, b3) w h (stepsAlong double tenth sx c) sy
                = Inr (Some (1, 0))"
    if "c < 10" for c
  proof -
    have n: "sx \<le> stepsAlong double tenth sx c" "stepsAlong double tenth sx c \<le> sx + 101 / 100"
      using near [of c] that by simp_all
    show ?thesis
      using assms n by (intro interpolateVectorR_uniform) (simp_all add: field_simps)
  qed
  have inb: "b0 \<le> stepsAlong double tenth sx c \<and> stepsAlong double tenth sx c \<le> b2"
    if "1 \<le> c" "c \<le> 10" for c
  proof -
    have e: "b0 \<le> sx" "sx + 101 / 100 \<le> b2" using assms(5,6) by simp_all
    have n: "sx \<le> stepsAlong double tenth sx c" "stepsAlong double tenth sx c \<le> sx + 101 / 100"
      using near [OF that(2)] by simp_all
    from e n show ?thesis by linarith
  qed
  have iny: "b1 \<le> sy" "sy \<le> b3" using assms(4,7) by simp_all
  show ?thesis
    using assms(3)
    by (intro unit_x_runR samp double_tenth_fix assms(8) inb iny length_test_continues
        length_test_stops) simp_all
qed

lemma from_five_0: "stepsAlong double tenth 5 0 = 5629499534213120 / 2 ^ 50"
  by simp

lemma from_five_1: "stepsAlong double tenth 5 (Suc 0) = 5742089524897382 / 2 ^ 50"
proof -
  have "double (5629499534213120 / 2 ^ 50 + tenth) = 5742089524897382 / 2 ^ 50"
    unfolding tenth_def
    using double_eqI [of "- 50" "5629499534213120 / 2 ^ 50 + 3602879701896397 / 2 ^ 55" 5742089524897382] by simp
  then show ?thesis by (subst stepsAlong.simps(2), subst from_five_0)
qed

lemma from_five_2: "stepsAlong double tenth 5 (Suc (Suc 0)) = 5854679515581644 / 2 ^ 50"
proof -
  have "double (5742089524897382 / 2 ^ 50 + tenth) = 5854679515581644 / 2 ^ 50"
    unfolding tenth_def
    using double_eqI [of "- 50" "5742089524897382 / 2 ^ 50 + 3602879701896397 / 2 ^ 55" 5854679515581644] by simp
  then show ?thesis by (subst stepsAlong.simps(2), subst from_five_1)
qed

lemma from_five_3: "stepsAlong double tenth 5 (Suc (Suc (Suc 0))) = 5967269506265906 / 2 ^ 50"
proof -
  have "double (5854679515581644 / 2 ^ 50 + tenth) = 5967269506265906 / 2 ^ 50"
    unfolding tenth_def
    using double_eqI [of "- 50" "5854679515581644 / 2 ^ 50 + 3602879701896397 / 2 ^ 55" 5967269506265906] by simp
  then show ?thesis by (subst stepsAlong.simps(2), subst from_five_2)
qed

lemma from_five_4: "stepsAlong double tenth 5 (Suc (Suc (Suc (Suc 0)))) = 6079859496950168 / 2 ^ 50"
proof -
  have "double (5967269506265906 / 2 ^ 50 + tenth) = 6079859496950168 / 2 ^ 50"
    unfolding tenth_def
    using double_eqI [of "- 50" "5967269506265906 / 2 ^ 50 + 3602879701896397 / 2 ^ 55" 6079859496950168] by simp
  then show ?thesis by (subst stepsAlong.simps(2), subst from_five_3)
qed

lemma from_five_5: "stepsAlong double tenth 5 (Suc (Suc (Suc (Suc (Suc 0))))) = 6192449487634430 / 2 ^ 50"
proof -
  have "double (6079859496950168 / 2 ^ 50 + tenth) = 6192449487634430 / 2 ^ 50"
    unfolding tenth_def
    using double_eqI [of "- 50" "6079859496950168 / 2 ^ 50 + 3602879701896397 / 2 ^ 55" 6192449487634430] by simp
  then show ?thesis by (subst stepsAlong.simps(2), subst from_five_4)
qed

lemma from_five_6: "stepsAlong double tenth 5 (Suc (Suc (Suc (Suc (Suc (Suc 0)))))) = 6305039478318692 / 2 ^ 50"
proof -
  have "double (6192449487634430 / 2 ^ 50 + tenth) = 6305039478318692 / 2 ^ 50"
    unfolding tenth_def
    using double_eqI [of "- 50" "6192449487634430 / 2 ^ 50 + 3602879701896397 / 2 ^ 55" 6305039478318692] by simp
  then show ?thesis by (subst stepsAlong.simps(2), subst from_five_5)
qed

lemma from_five_7: "stepsAlong double tenth 5 (Suc (Suc (Suc (Suc (Suc (Suc (Suc 0))))))) = 6417629469002954 / 2 ^ 50"
proof -
  have "double (6305039478318692 / 2 ^ 50 + tenth) = 6417629469002954 / 2 ^ 50"
    unfolding tenth_def
    using double_eqI [of "- 50" "6305039478318692 / 2 ^ 50 + 3602879701896397 / 2 ^ 55" 6417629469002954] by simp
  then show ?thesis by (subst stepsAlong.simps(2), subst from_five_6)
qed

lemma from_five_8: "stepsAlong double tenth 5 (Suc (Suc (Suc (Suc (Suc (Suc (Suc (Suc 0)))))))) = 6530219459687216 / 2 ^ 50"
proof -
  have "double (6417629469002954 / 2 ^ 50 + tenth) = 6530219459687216 / 2 ^ 50"
    unfolding tenth_def
    using double_eqI [of "- 50" "6417629469002954 / 2 ^ 50 + 3602879701896397 / 2 ^ 55" 6530219459687216] by simp
  then show ?thesis by (subst stepsAlong.simps(2), subst from_five_7)
qed

lemma from_five_9: "stepsAlong double tenth 5 (Suc (Suc (Suc (Suc (Suc (Suc (Suc (Suc (Suc 0))))))))) = 6642809450371478 / 2 ^ 50"
proof -
  have "double (6530219459687216 / 2 ^ 50 + tenth) = 6642809450371478 / 2 ^ 50"
    unfolding tenth_def
    using double_eqI [of "- 50" "6530219459687216 / 2 ^ 50 + 3602879701896397 / 2 ^ 55" 6642809450371478] by simp
  then show ?thesis by (subst stepsAlong.simps(2), subst from_five_8)
qed

lemma from_five_10: "stepsAlong double tenth 5 (Suc (Suc (Suc (Suc (Suc (Suc (Suc (Suc (Suc (Suc 0)))))))))) = 6755399441055740 / 2 ^ 50"
proof -
  have "double (6642809450371478 / 2 ^ 50 + tenth) = 6755399441055740 / 2 ^ 50"
    unfolding tenth_def
    using double_eqI [of "- 50" "6642809450371478 / 2 ^ 50 + 3602879701896397 / 2 ^ 55" 6755399441055740] by simp
  then show ?thesis by (subst stepsAlong.simps(2), subst from_five_9)
qed

lemma from_five:
  "map (\<lambda>k. (stepsAlong double tenth 5 k, 5)) [0..<11] = elevenPoints"
  by (simp add: upt_conv_Cons elevenPoints_def from_five_0 from_five_1 from_five_2 from_five_3 from_five_4 from_five_5 from_five_6 from_five_7 from_five_8 from_five_9 from_five_10
      del: stepsAlong.simps)

lemma from_one_0: "stepsAlong double tenth 1 0 = 4503599627370496 / 2 ^ 52"
  by simp

lemma from_one_1: "stepsAlong double tenth 1 (Suc 0) = 4953959590107546 / 2 ^ 52"
proof -
  have "double (4503599627370496 / 2 ^ 52 + tenth) = 4953959590107546 / 2 ^ 52"
    unfolding tenth_def
    using double_eqI [of "- 52" "4503599627370496 / 2 ^ 52 + 3602879701896397 / 2 ^ 55" 4953959590107546] by simp
  then show ?thesis by (subst stepsAlong.simps(2), subst from_one_0)
qed

lemma from_one_2: "stepsAlong double tenth 1 (Suc (Suc 0)) = 5404319552844596 / 2 ^ 52"
proof -
  have "double (4953959590107546 / 2 ^ 52 + tenth) = 5404319552844596 / 2 ^ 52"
    unfolding tenth_def
    using double_eqI [of "- 52" "4953959590107546 / 2 ^ 52 + 3602879701896397 / 2 ^ 55" 5404319552844596] by simp
  then show ?thesis by (subst stepsAlong.simps(2), subst from_one_1)
qed

lemma from_one_3: "stepsAlong double tenth 1 (Suc (Suc (Suc 0))) = 5854679515581646 / 2 ^ 52"
proof -
  have "double (5404319552844596 / 2 ^ 52 + tenth) = 5854679515581646 / 2 ^ 52"
    unfolding tenth_def
    using double_eqI [of "- 52" "5404319552844596 / 2 ^ 52 + 3602879701896397 / 2 ^ 55" 5854679515581646] by simp
  then show ?thesis by (subst stepsAlong.simps(2), subst from_one_2)
qed

lemma from_one_4: "stepsAlong double tenth 1 (Suc (Suc (Suc (Suc 0)))) = 6305039478318696 / 2 ^ 52"
proof -
  have "double (5854679515581646 / 2 ^ 52 + tenth) = 6305039478318696 / 2 ^ 52"
    unfolding tenth_def
    using double_eqI [of "- 52" "5854679515581646 / 2 ^ 52 + 3602879701896397 / 2 ^ 55" 6305039478318696] by simp
  then show ?thesis by (subst stepsAlong.simps(2), subst from_one_3)
qed

lemma from_one_5: "stepsAlong double tenth 1 (Suc (Suc (Suc (Suc (Suc 0))))) = 6755399441055746 / 2 ^ 52"
proof -
  have "double (6305039478318696 / 2 ^ 52 + tenth) = 6755399441055746 / 2 ^ 52"
    unfolding tenth_def
    using double_eqI [of "- 52" "6305039478318696 / 2 ^ 52 + 3602879701896397 / 2 ^ 55" 6755399441055746] by simp
  then show ?thesis by (subst stepsAlong.simps(2), subst from_one_4)
qed

lemma from_one_6: "stepsAlong double tenth 1 (Suc (Suc (Suc (Suc (Suc (Suc 0)))))) = 7205759403792796 / 2 ^ 52"
proof -
  have "double (6755399441055746 / 2 ^ 52 + tenth) = 7205759403792796 / 2 ^ 52"
    unfolding tenth_def
    using double_eqI [of "- 52" "6755399441055746 / 2 ^ 52 + 3602879701896397 / 2 ^ 55" 7205759403792796] by simp
  then show ?thesis by (subst stepsAlong.simps(2), subst from_one_5)
qed

lemma from_one_7: "stepsAlong double tenth 1 (Suc (Suc (Suc (Suc (Suc (Suc (Suc 0))))))) = 7656119366529846 / 2 ^ 52"
proof -
  have "double (7205759403792796 / 2 ^ 52 + tenth) = 7656119366529846 / 2 ^ 52"
    unfolding tenth_def
    using double_eqI [of "- 52" "7205759403792796 / 2 ^ 52 + 3602879701896397 / 2 ^ 55" 7656119366529846] by simp
  then show ?thesis by (subst stepsAlong.simps(2), subst from_one_6)
qed

lemma from_one_8: "stepsAlong double tenth 1 (Suc (Suc (Suc (Suc (Suc (Suc (Suc (Suc 0)))))))) = 8106479329266896 / 2 ^ 52"
proof -
  have "double (7656119366529846 / 2 ^ 52 + tenth) = 8106479329266896 / 2 ^ 52"
    unfolding tenth_def
    using double_eqI [of "- 52" "7656119366529846 / 2 ^ 52 + 3602879701896397 / 2 ^ 55" 8106479329266896] by simp
  then show ?thesis by (subst stepsAlong.simps(2), subst from_one_7)
qed

lemma from_one_9: "stepsAlong double tenth 1 (Suc (Suc (Suc (Suc (Suc (Suc (Suc (Suc (Suc 0))))))))) = 8556839292003946 / 2 ^ 52"
proof -
  have "double (8106479329266896 / 2 ^ 52 + tenth) = 8556839292003946 / 2 ^ 52"
    unfolding tenth_def
    using double_eqI [of "- 52" "8106479329266896 / 2 ^ 52 + 3602879701896397 / 2 ^ 55" 8556839292003946] by simp
  then show ?thesis by (subst stepsAlong.simps(2), subst from_one_8)
qed

lemma from_one_10: "stepsAlong double tenth 1 (Suc (Suc (Suc (Suc (Suc (Suc (Suc (Suc (Suc (Suc 0)))))))))) = 9007199254740996 / 2 ^ 52"
proof -
  have "double (8556839292003946 / 2 ^ 52 + tenth) = 9007199254740996 / 2 ^ 52"
    unfolding tenth_def
    using double_eqI [of "- 51" "8556839292003946 / 2 ^ 52 + 3602879701896397 / 2 ^ 55" 4503599627370498] by simp
  then show ?thesis by (subst stepsAlong.simps(2), subst from_one_9)
qed

lemma from_one:
  "map (\<lambda>k. (stepsAlong double tenth 1 k, 5)) [0..<10] = tenPoints"
  by (simp add: upt_conv_Cons tenPoints_def from_one_0 from_one_1 from_one_2 from_one_3 from_one_4 from_one_5 from_one_6 from_one_7 from_one_8 from_one_9
      del: stepsAlong.simps)

text \<open>
  Bounds that end exactly one unit beyond the seed: ten additions of the double 0.1 to
  1 give 2.000000000000001, which is beyond the bound 2, so the tenth step leaves the
  bounds and the line keeps 10 points.
\<close>

lemma integrateLine_short_bounds:
  "integrateLineR double (unitField 2 2) (0, 0, 2, 10) 2 2 (double (1 / 10)) 1000 1 1 5
     = Inr tenPoints \<and> length tenPoints = 10"
proof -
  let ?vf = "replicate 2 (replicate 2 (1::real, 0::real))"
  have near: "1 \<le> stepsAlong double tenth 1 c \<and> stepsAlong double tenth 1 c \<le> 191 / 100"
    if "c \<le> 9" for c
  proof -
    define q where "q = real c"
    have q: "0 \<le> q" "q \<le> 9" unfolding q_def using that by simp_all
    then have "q / 2 ^ 31 \<le> q / 1000" by (intro divide_left_mono) simp_all
    moreover have "\<bar>stepsAlong double tenth 1 c - (1 + real c / 10)\<bar> \<le> real c / 2 ^ 31"
      using that by (intro stepsAlong_drift) simp_all
    ultimately have "\<bar>stepsAlong double tenth 1 c - (1 + q / 10)\<bar> \<le> q / 1000"
      unfolding q_def by linarith
    with q show ?thesis by linarith
  qed
  have samp: "interpolateVectorR double ?vf (0, 0, 2, 10) 2 2 (stepsAlong double tenth 1 c) 5
                = Inr (Some (1, 0))"
    if "c \<le> 9" for c
  proof -
    have n: "1 \<le> stepsAlong double tenth 1 c" "stepsAlong double tenth 1 c \<le> 191 / 100"
      using near [OF that] by simp_all
    show ?thesis
      using n by (intro interpolateVectorR_uniform) simp_all
  qed
  have inb: "0 \<le> stepsAlong double tenth 1 c \<and> stepsAlong double tenth 1 c \<le> 2"
    if "1 \<le> c" "c \<le> 9" for c
  proof -
    have n: "1 \<le> stepsAlong double tenth 1 c" "stepsAlong double tenth 1 c \<le> 191 / 100"
      using near [OF that(2)] by simp_all
    then show ?thesis by linarith
  qed
  have out: "stepsAlong double tenth 1 (Suc 9) > 2"
  proof -
    have "Suc 9 = Suc (Suc (Suc (Suc (Suc (Suc (Suc (Suc (Suc (Suc 0)))))))))" by simp
    then show ?thesis by (simp only: from_one_10) simp
  qed
  have cont: "\<not> double (real c * tenth) > 1" if "2 \<le> c" "c \<le> 9 + 1" for c
    using that by (intro length_test_continues) simp_all
  have "integrateLoopR double ?vf (0, 0, 2, 10) 2 2 tenth 1 1000 (stepsAlong double tenth 1 0) 5
           (map (\<lambda>c. (stepsAlong double tenth 1 c, 5)) [0..<Suc 0])
         = Inr (map (\<lambda>c. (stepsAlong double tenth 1 c, 5)) [0..<Suc 9])"
    by (intro unit_x_leaveR samp double_tenth_fix double_5 inb out cont) simp_all
  moreover have "map (\<lambda>c. (stepsAlong double tenth 1 c, 5)) [0..<Suc 9] = tenPoints"
    using from_one by simp
  ultimately show ?thesis
    by (simp add: integrateLineR_def unitField_def double_tenth tenPoints_def)
qed

text \<open>
  Claim C9, as the code has it, in double precision. The field is \<open>(1, 0)\<close> in every
  cell, the step size is the double 0.1 and the line length 1; the seed is the centre
  of the bounds, which are at most \<open>2 ^ 20\<close> in magnitude and reach at least 1.1 beyond
  the centre along \<open>x\<close>. With at least 10 iterations allowed the line has exactly 11
  points: the seed and ten more at the height of the seed, each the rounded sum of the
  one before and 0.1, so that point \<open>k\<close> is within \<open>k / 2 ^ 31\<close> of the seed plus
  \<open>k / 10\<close>. The loop stops when \<open>length * 0.1 > 1\<close>, which the eleventh point is the
  first to satisfy.
\<close>

theorem integrateLine_uniform_field:
  assumes "2 \<le> w" "2 \<le> h" "10 \<le> maxSteps"
    and "\<bar>b0\<bar> \<le> 2 ^ 20" "\<bar>b1\<bar> \<le> 2 ^ 20" "\<bar>b2\<bar> \<le> 2 ^ 20" "\<bar>b3\<bar> \<le> 2 ^ 20"
    and "b1 < b3" "b0 + 22 / 10 \<le> b2"
    and "sx = (b0 + b2) / 2" "sy = (b1 + b3) / 2" "double sy = sy"
  shows "integrateLineR double (unitField w h) (b0, b1, b2, b3) w h (double (1 / 10)) maxSteps 1
           sx sy
         = Inr (map (\<lambda>k. (stepsAlong double (double (1 / 10)) sx k, sy)) [0..<11]) \<and>
         length (map (\<lambda>k. (stepsAlong double (double (1 / 10)) sx k, sy)) [0..<11]) = 11 \<and>
         (\<forall>k\<le>10. \<bar>stepsAlong double (double (1 / 10)) sx k - (sx + real k / 10)\<bar>
                    \<le> real k / 2 ^ 31)"
proof -
  have m: "\<bar>sx\<bar> \<le> 2 ^ 20" using assms(4,6,10) by simp
  have "integrateLoopR double (replicate w (replicate h (1, 0))) (b0, b1, b2, b3) w h tenth 1
           maxSteps (stepsAlong double tenth sx 0) sy
           (map (\<lambda>c. (stepsAlong double tenth sx c, sy)) [0..<Suc 0])
         = Inr (map (\<lambda>c. (stepsAlong double tenth sx c, sy)) [0..<Suc 10])"
    using assms(1,2,3,8,9,10,11,12) m by (rule ten_steps_rounded)
  then have "integrateLineR double (unitField w h) (b0, b1, b2, b3) w h tenth maxSteps 1 sx sy
         = Inr (map (\<lambda>k. (stepsAlong double tenth sx k, sy)) [0..<11])"
    by (simp add: integrateLineR_def unitField_def)
  moreover have "\<forall>k\<le>10. \<bar>stepsAlong double tenth sx k - (sx + real k / 10)\<bar> \<le> real k / 2 ^ 31"
    using stepsAlong_drift [OF m] by blast
  ultimately show ?thesis unfolding double_tenth by simp
qed

text \<open>
  A field of 20 by 20 cells over the bounds \<open>(0, 0, 10, 10)\<close>, from the centre \<open>(5, 5)\<close>:
  the line ends at 5.9999999999999964.
\<close>

theorem integrateLine_uniform_field_witness:
  "(2::nat) \<le> 20 \<and> (10::nat) \<le> 1000 \<and> \<bar>0::real\<bar> \<le> 2 ^ 20 \<and> \<bar>10::real\<bar> \<le> 2 ^ 20 \<and>
   (0::real) < 10 \<and> (0::real) + 22 / 10 \<le> 10 \<and> (5::real) = (0 + 10) / 2 \<and> double 5 = 5 \<and>
   integrateLineR double (unitField 20 20) (0, 0, 10, 10) 20 20 (double (1 / 10)) 1000 1 5 5
     = Inr elevenPoints \<and>
   stepsAlong double (double (1 / 10)) 5 10 = 6755399441055740 / 2 ^ 50 \<and>
   \<bar>6755399441055740 / 2 ^ 50 - (5 + real (10::nat) / 10)\<bar> \<le> real (10::nat) / 2 ^ 31"
proof -
  have t: "(10::nat) = Suc (Suc (Suc (Suc (Suc (Suc (Suc (Suc (Suc (Suc 0)))))))))" by simp
  have p: "stepsAlong double tenth 5 10 = 6755399441055740 / 2 ^ 50"
    by (subst t) (rule from_five_10)
  have th: "integrateLineR double (unitField 20 20) (0, 0, 10, 10) 20 20 (double (1 / 10)) 1000 1
             5 5
           = Inr (map (\<lambda>k. (stepsAlong double (double (1 / 10)) 5 k, 5)) [0..<11]) \<and>
         length (map (\<lambda>k. (stepsAlong double (double (1 / 10)) 5 k, 5::real)) [0..<11]) = 11 \<and>
         (\<forall>k\<le>10. \<bar>stepsAlong double (double (1 / 10)) 5 k - (5 + real k / 10)\<bar>
                    \<le> real k / 2 ^ 31)"
    by (rule integrateLine_uniform_field [of 20 20 1000 0 0 10 10 5 5])
      (simp_all add: double_5)
  note r = th [THEN conjunct1]
  note d = th [THEN conjunct2, THEN conjunct2]
  have "\<bar>stepsAlong double (double (1 / 10)) 5 10 - (5 + real (10::nat) / 10)\<bar>
                 \<le> real (10::nat) / 2 ^ 31"
    by (rule d [rule_format, of 10, OF le_refl])
  then have e: "\<bar>6755399441055740 / 2 ^ 50 - (5 + real (10::nat) / 10)\<bar>
                 \<le> real (10::nat) / 2 ^ 31"
    unfolding double_tenth p .
  have q: "stepsAlong double (double (1 / 10)) 5 10 = 6755399441055740 / 2 ^ 50"
    unfolding double_tenth by (rule p)
  have r': "integrateLineR double (unitField 20 20) (0, 0, 10, 10) 20 20 (double (1 / 10)) 1000 1
             5 5 = Inr elevenPoints"
    using r unfolding double_tenth from_five .
  have h: "(2::nat) \<le> 20" "(10::nat) \<le> 1000" "\<bar>0::real\<bar> \<le> 2 ^ 20" "\<bar>10::real\<bar> \<le> 2 ^ 20"
    "(0::real) < 10" "(0::real) + 22 / 10 \<le> 10" "(5::real) = (0 + 10) / 2" "double 5 = 5"
    by (simp_all add: double_5)
  show ?thesis by (intro conjI h r' q e)
qed

text \<open>The same line, counted: it has 11 points, not 10.\<close>

theorem integrateLine_uniform_field_counterexample:
  "integrateLineR double (unitField 20 20) (0, 0, 10, 10) 20 20 (double (1 / 10)) 1000 1 5 5
     = Inr elevenPoints \<and>
   length elevenPoints = 11 \<and> length elevenPoints \<noteq> 10"
proof -
  have "integrateLoopR double (replicate 20 (replicate 20 (1, 0))) (0, 0, 10, 10) 20 20 tenth 1
           1000 (stepsAlong double tenth 5 0) 5
           (map (\<lambda>c. (stepsAlong double tenth 5 c, 5)) [0..<Suc 0])
         = Inr (map (\<lambda>c. (stepsAlong double tenth 5 c, 5)) [0..<Suc 10])"
    by (rule ten_steps_rounded) (simp_all add: double_5)
  moreover have "map (\<lambda>c. (stepsAlong double tenth 5 c, 5)) [0..<Suc 10] = elevenPoints"
    using from_five by simp
  ultimately show ?thesis
    by (simp add: integrateLineR_def unitField_def double_tenth elevenPoints_def)
qed

subsection \<open>The travel-time matrix\<close>

lemma atan2_nonneg: "0 \<le> y \<Longrightarrow> 0 \<le> atan2 y x"
proof -
  assume y: "0 \<le> y"
  consider "0 < x" | "x < 0" | "x = 0" by linarith
  then show ?thesis
  proof cases
    case 1
    then have "0 \<le> y / x" using y by simp
    then show ?thesis using 1 by (simp add: atan2_def zero_le_arctan_iff)
  next
    case 2
    have "- (pi / 2) < arctan (y / x)" by (rule arctan_lbound)
    with pi_gt_zero have "0 \<le> arctan (y / x) + pi" by linarith
    then show ?thesis using 2 y by (simp add: atan2_def)
  next
    case 3
    then show ?thesis using y pi_gt_zero by (simp add: atan2_def)
  qed
qed

lemma atan2_0_1: "atan2 0 1 = 0"
  by (simp add: atan2_def)

lemma haversine_a_sym: "haversine_a p q = haversine_a q p"
proof -
  have m: "degreesToRadians (a - b) / 2 = - (degreesToRadians (b - a) / 2)" for a b
    by (simp add: degreesToRadians_def field_simps)
  have s: "(sin (degreesToRadians (a - b) / 2))\<^sup>2 = (sin (degreesToRadians (b - a) / 2))\<^sup>2"
    for a b
    unfolding m [of a b] sin_minus by simp
  show ?thesis
    unfolding haversine_a_def Let_def s [of "snd q" "snd p"] s [of "fst q" "fst p"]
    by (simp add: mult.commute mult.left_commute)
qed

lemma haversine_a_same: "haversine_a p p = 0"
  by (simp add: haversine_a_def degreesToRadians_def)

text \<open>
  The haversine term lies in \<open>[0, 1]\<close> for all coordinates, so both square roots of
  \<open>turf_distance\<close> are taken of numbers that are not negative.
\<close>

lemma haversine_a_range: "0 \<le> haversine_a p q \<and> haversine_a p q \<le> 1"
proof -
  define l1 where "l1 = degreesToRadians (snd p)"
  define l2 where "l2 = degreesToRadians (snd q)"
  define s where "s = (sin (degreesToRadians (fst q - fst p) / 2))\<^sup>2"
  have dl: "degreesToRadians (snd q - snd p) = l2 - l1"
    by (simp add: l1_def l2_def degreesToRadians_def algebra_simps diff_divide_distrib)
  have a: "haversine_a p q = (sin ((l2 - l1) / 2))\<^sup>2 + s * cos l1 * cos l2"
    by (simp add: haversine_a_def Let_def dl l1_def l2_def s_def)
  have s0: "0 \<le> s" by (simp add: s_def)
  have s1: "s \<le> 1"
    unfolding s_def
    using sin_cos_squared_add [of "degreesToRadians (fst q - fst p) / 2"]
      zero_le_power2 [of "cos (degreesToRadians (fst q - fst p) / 2)"]
    by linarith
  have "2 * ((l2 - l1) / 2) = l2 - l1" by simp
  then have "cos (l2 - l1) = 1 - 2 * (sin ((l2 - l1) / 2))\<^sup>2"
    using cos_double_sin [of "(l2 - l1) / 2"] by (simp only:)
  then have h: "(sin ((l2 - l1) / 2))\<^sup>2 = (1 - cos (l2 - l1)) / 2"
    by (simp only: field_simps)
  have pr: "cos l1 * cos l2 = (cos (l2 - l1) + cos (l2 + l1)) / 2"
    by (simp add: cos_add cos_diff)
  have alg: "(1 - u) / 2 + s * ((u + v) / 2) = (1 - (1 - s) * u + s * v) / 2" for u v :: real
    by (simp add: field_simps)
  have "haversine_a p q = (1 - cos (l2 - l1)) / 2 + s * (cos l1 * cos l2)"
    unfolding a h by (simp only: mult.assoc)
  then have a2: "haversine_a p q = (1 - (1 - s) * cos (l2 - l1) + s * cos (l2 + l1)) / 2"
    unfolding pr alg .
  have c1: "(1 - s) * cos (l2 - l1) \<le> 1 - s"
    using s1 cos_le_one [of "l2 - l1"] by (simp add: mult_left_le)
  have c2: "- (1 - s) \<le> (1 - s) * cos (l2 - l1)"
    using s1 cos_ge_minus_one [of "l2 - l1"] mult_left_mono [of "- 1" "cos (l2 - l1)" "1 - s"]
    by simp
  have c3: "s * cos (l2 + l1) \<le> s"
    using s0 cos_le_one [of "l2 + l1"] by (simp add: mult_left_le)
  have c4: "- s \<le> s * cos (l2 + l1)"
    using s0 cos_ge_minus_one [of "l2 + l1"] mult_left_mono [of "- 1" "cos (l2 + l1)" s]
    by simp
  show ?thesis unfolding a2 using c1 c2 c3 c4 by simp
qed

lemma turf_distance_sym: "turf_distance p q = turf_distance q p"
  by (simp add: turf_distance_def haversine_a_sym [of p q])

lemma turf_distance_same: "turf_distance p p = 0"
  by (simp add: turf_distance_def haversine_a_same atan2_0_1)

lemma turf_distance_nonneg: "0 \<le> turf_distance p q"
proof -
  have "0 \<le> sqrt (haversine_a p q)" using haversine_a_range by simp
  then have "0 \<le> atan2 (sqrt (haversine_a p q)) (sqrt (1 - haversine_a p q))"
    by (rule atan2_nonneg)
  then show ?thesis by (simp add: turf_distance_def Let_def)
qed

text \<open>
  In exact arithmetic, with the great-circle distance for \<^verbatim>\<open>turf.distance\<close>: for every
  point list, the matrix that \<open>generateTimeMatrix\<close> returns is square of the size of the
  list, symmetric (the entry \<open>(i, j)\<close> equals the entry \<open>(j, i)\<close>), zero on the diagonal,
  and has no negative entry. The function computes the two entries of a pair by two
  calls: what the matrix inherits from a distance function in double precision is
  stated below.
\<close>

lemma generateTimeMatrix_exact_arithmetic:
  "length (generateTimeMatrix turf_distance points) = length points \<and>
   (\<forall>i<length points.
      length (generateTimeMatrix turf_distance points ! i) = length points \<and>
      generateTimeMatrix turf_distance points ! i ! i = 0 \<and>
      (\<forall>j<length points.
         generateTimeMatrix turf_distance points ! i ! j
           = generateTimeMatrix turf_distance points ! j ! i \<and>
         0 \<le> generateTimeMatrix turf_distance points ! i ! j))"
proof -
  have e: "generateTimeMatrix turf_distance points ! i ! j
      = turf_distance (coordinates (points ! i)) (coordinates (points ! j)) / 30 * 60"
    if "i < length points" "j < length points" for i j
    using that by (simp add: generateTimeMatrix_def)
  have sym: "generateTimeMatrix turf_distance points ! i ! j
      = generateTimeMatrix turf_distance points ! j ! i"
    if "i < length points" "j < length points" for i j
    unfolding e [OF that] e [OF that(2,1)]
    by (simp only: turf_distance_sym [of "coordinates (points ! i)"])
  have diag: "generateTimeMatrix turf_distance points ! i ! i = 0" if "i < length points" for i
    unfolding e [OF that that] by (simp add: turf_distance_same)
  have nonneg: "0 \<le> generateTimeMatrix turf_distance points ! i ! j"
    if "i < length points" "j < length points" for i j
    unfolding e [OF that] using turf_distance_nonneg [of "coordinates (points ! i)"] by simp
  show ?thesis
    using sym diag nonneg by (simp add: generateTimeMatrix_def)
qed









subsection \<open>Distortion\<close>

lemma distortPoint_Inr:
  assumes "i < length points"
  shows "distortPoint points timeMatrix f (points ! i, i) = Inr q \<longleftrightarrow>
     i < length timeMatrix \<and>
     q = (points ! i)\<lparr> coordinates :=
            (fst (coordinates (points ! i))
               + cos (atan2 (snd (coordinates (points ! i)) - snd (coordinates (points ! 0)))
                            (fst (coordinates (points ! i)) - fst (coordinates (points ! 0))))
                 * ((reduceSum (timeMatrix ! i) / real (length points) / 60) * f),
             snd (coordinates (points ! i))
               + sin (atan2 (snd (coordinates (points ! i)) - snd (coordinates (points ! 0)))
                            (fst (coordinates (points ! i)) - fst (coordinates (points ! 0))))
                 * ((reduceSum (timeMatrix ! i) / real (length points) / 60) * f)),
          travelTime := Some (reduceSum (timeMatrix ! i) / real (length points)) \<rparr>"
proof -
  from assms obtain c rest where p: "points = c # rest" by (cases points) auto
  show ?thesis
    unfolding distortPoint_def p by (auto simp: Let_def)
qed

lemma distortPoints_Inr:
  "distortPoints points timeMatrix F = Inr ps \<longleftrightarrow>
     length ps = length points \<and>
     (\<forall>i<length points.
        distortPoint points timeMatrix (factorOr1 F) (points ! i, i) = Inr (ps ! i))"
  unfolding distortPoints_def mapThrow_Inr_iff by auto

text \<open>\<open>distortPoints\<close> returns exactly when the matrix has a row for every point.\<close>

lemma distortPoints_returns_iff:
  "(\<exists>ps. distortPoints points timeMatrix F = Inr ps) \<longleftrightarrow> length points \<le> length timeMatrix"
proof
  assume "\<exists>ps. distortPoints points timeMatrix F = Inr ps"
  then obtain ps where ps: "distortPoints points timeMatrix F = Inr ps" ..
  show "length points \<le> length timeMatrix"
  proof (cases points)
    case Nil
    then show ?thesis by simp
  next
    case (Cons c rest)
    then have l: "length points - 1 < length points" by simp
    from ps [unfolded distortPoints_Inr] l
    have "distortPoint points timeMatrix (factorOr1 F)
            (points ! (length points - 1), length points - 1)
        = Inr (ps ! (length points - 1))" by blast
    then have "length points - 1 < length timeMatrix"
      unfolding distortPoint_Inr [OF l] by blast
    then show ?thesis by simp
  qed
next
  assume le: "length points \<le> length timeMatrix"
  let ?q = "\<lambda>i. (points ! i)\<lparr> coordinates :=
            (fst (coordinates (points ! i))
               + cos (atan2 (snd (coordinates (points ! i)) - snd (coordinates (points ! 0)))
                            (fst (coordinates (points ! i)) - fst (coordinates (points ! 0))))
                 * ((reduceSum (timeMatrix ! i) / real (length points) / 60) * factorOr1 F),
             snd (coordinates (points ! i))
               + sin (atan2 (snd (coordinates (points ! i)) - snd (coordinates (points ! 0)))
                            (fst (coordinates (points ! i)) - fst (coordinates (points ! 0))))
                 * ((reduceSum (timeMatrix ! i) / real (length points) / 60) * factorOr1 F)),
          travelTime := Some (reduceSum (timeMatrix ! i) / real (length points)) \<rparr>"
  have "distortPoints points timeMatrix F = Inr (map ?q [0..<length points])"
    unfolding distortPoints_Inr using le by (auto simp: distortPoint_Inr)
  then show "\<exists>ps. distortPoints points timeMatrix F = Inr ps" ..
qed

lemma distortPoints_displacement:
  assumes "distortPoints points timeMatrix F = Inr ps" "i < length points"
  shows "displacement (points ! i) (ps ! i) =
     (cos (atan2 (snd (coordinates (points ! i)) - snd (coordinates (points ! 0)))
                 (fst (coordinates (points ! i)) - fst (coordinates (points ! 0))))
        * ((reduceSum (timeMatrix ! i) / real (length points) / 60) * factorOr1 F),
      sin (atan2 (snd (coordinates (points ! i)) - snd (coordinates (points ! 0)))
                 (fst (coordinates (points ! i)) - fst (coordinates (points ! 0))))
        * ((reduceSum (timeMatrix ! i) / real (length points) / 60) * factorOr1 F))"
proof -
  from assms have "distortPoint points timeMatrix (factorOr1 F) (points ! i, i) = Inr (ps ! i)"
    unfolding distortPoints_Inr by blast
  then show ?thesis
    unfolding distortPoint_Inr [OF assms(2)] by (simp add: displacement_def)
qed

lemma vecLength_polar: "vecLength (cos t * r, sin t * r) = \<bar>r\<bar>"
proof -
  have "(cos t * r)\<^sup>2 + (sin t * r)\<^sup>2 = r\<^sup>2 * ((sin t)\<^sup>2 + (cos t)\<^sup>2)"
    by (simp only: power_mult_distrib distrib_left mult.commute add.commute)
  also have "\<dots> = r\<^sup>2" by (simp only: sin_cos_squared_add mult_1_right)
  finally show ?thesis by (simp add: vecLength_def)
qed

lemma distortPoints_two:
  "distortPoints [pointA, pointB] twoMinutes (Some f) =
     Inr [pointA\<lparr>coordinates := (f / 60, 0), travelTime := Some 1\<rparr>,
          pointB\<lparr>coordinates := (1 + f / 60, 0), travelTime := Some 1\<rparr>]"
  by (simp add: distortPoints_def distortPoint_def factorOr1_def reduceSum_def atan2_def
      twoMinutes_def pointA_def pointB_def gridPoint_def upt_conv_Cons)

text \<open>
  Over the reals, where no sum is rounded, the displacement (distorted minus original
  coordinates) is the offset \<open>(cos direction, sin direction) * scaleFactor\<close> that the
  code adds to the coordinates, and the factor \<open>2 * f\<close> doubles it.
\<close>

lemma distortPoints_displacement_exact:
  assumes "distortPoints points timeMatrix (Some f) = Inr ps"
  shows "\<exists>qs. distortPoints points timeMatrix (Some (2 * f)) = Inr qs \<and>
           length ps = length points \<and> length qs = length points \<and>
           (\<forall>i<length points.
              displacement (points ! i) (qs ! i) =
                (2 * fst (displacement (points ! i) (ps ! i)),
                 2 * snd (displacement (points ! i) (ps ! i))) \<and>
              vecLength (displacement (points ! i) (qs ! i)) =
                2 * vecLength (displacement (points ! i) (ps ! i)))"
proof -
  from assms have "length points \<le> length timeMatrix"
    using distortPoints_returns_iff by blast
  then obtain qs where qs: "distortPoints points timeMatrix (Some (2 * f)) = Inr qs"
    using distortPoints_returns_iff by blast
  have lp: "length ps = length points" using assms unfolding distortPoints_Inr by blast
  have lq: "length qs = length points" using qs unfolding distortPoints_Inr by blast
  have "displacement (points ! i) (qs ! i) =
                (2 * fst (displacement (points ! i) (ps ! i)),
                 2 * snd (displacement (points ! i) (ps ! i))) \<and>
              vecLength (displacement (points ! i) (qs ! i)) =
                2 * vecLength (displacement (points ! i) (ps ! i))" if i: "i < length points" for i
    unfolding distortPoints_displacement [OF assms i] distortPoints_displacement [OF qs i]
      vecLength_polar
    by (simp add: factorOr1_def abs_mult)
  with qs lp lq show ?thesis by blast
qed

subsection \<open>Distortion in double precision\<close>

lemma distortPointR_Inr:
  assumes "i < length points"
  shows "distortPointR rnd m points timeMatrix f (points ! i, i) = Inr q \<longleftrightarrow>
     i < length timeMatrix \<and>
     q = (points ! i)\<lparr> coordinates :=
            (rnd (fst (coordinates (points ! i)) + fst (offsetR rnd m points timeMatrix f i)),
             rnd (snd (coordinates (points ! i)) + snd (offsetR rnd m points timeMatrix f i))),
          travelTime := Some (rnd (reduceSumR rnd (timeMatrix ! i) / real (length points))) \<rparr>"
proof -
  from assms obtain c rest where p: "points = c # rest" by (cases points) auto
  show ?thesis
    unfolding distortPointR_def offsetR_def p by (auto simp: Let_def)
qed

lemma distortPointsR_Inr:
  "distortPointsR rnd m points timeMatrix F = Inr ps \<longleftrightarrow>
     length ps = length points \<and>
     (\<forall>i<length points.
        distortPointR rnd m points timeMatrix (factorOr1 F) (points ! i, i) = Inr (ps ! i))"
  unfolding distortPointsR_def mapThrow_Inr_iff by auto

lemma distortPointsR_returns_iff:
  "(\<exists>ps. distortPointsR rnd m points timeMatrix F = Inr ps) \<longleftrightarrow> length points \<le> length timeMatrix"
proof
  assume "\<exists>ps. distortPointsR rnd m points timeMatrix F = Inr ps"
  then obtain ps where ps: "distortPointsR rnd m points timeMatrix F = Inr ps" ..
  show "length points \<le> length timeMatrix"
  proof (cases points)
    case Nil
    then show ?thesis by simp
  next
    case (Cons c rest)
    then have l: "length points - 1 < length points" by simp
    from ps [unfolded distortPointsR_Inr] l
    have "distortPointR rnd m points timeMatrix (factorOr1 F)
            (points ! (length points - 1), length points - 1)
        = Inr (ps ! (length points - 1))" by blast
    then have "length points - 1 < length timeMatrix"
      unfolding distortPointR_Inr [OF l] by blast
    then show ?thesis by simp
  qed
next
  assume le: "length points \<le> length timeMatrix"
  let ?q = "\<lambda>i. (points ! i)\<lparr> coordinates :=
            (rnd (fst (coordinates (points ! i)) + fst (offsetR rnd m points timeMatrix (factorOr1 F) i)),
             rnd (snd (coordinates (points ! i)) + snd (offsetR rnd m points timeMatrix (factorOr1 F) i))),
          travelTime := Some (rnd (reduceSumR rnd (timeMatrix ! i) / real (length points))) \<rparr>"
  have "distortPointsR rnd m points timeMatrix F = Inr (map ?q [0..<length points])"
    unfolding distortPointsR_Inr using le by (auto simp: distortPointR_Inr)
  then show "\<exists>ps. distortPointsR rnd m points timeMatrix F = Inr ps" ..
qed

lemma offsetR_twice:
  "offsetR double m points timeMatrix (2 * f) i =
     (2 * fst (offsetR double m points timeMatrix f i), 2 * snd (offsetR double m points timeMatrix f i))"
proof -
  have a: "double (a * (2 * f)) = 2 * double (a * f)" for a
    using double_twice [of "a * f"] by (simp add: mult.left_commute)
  have b: "double (c * (2 * s)) = 2 * double (c * s)" for c s
    using double_twice [of "c * s"] by (simp add: mult.left_commute)
  show ?thesis by (simp add: offsetR_def Let_def a b)
qed

lemma distortPointsR_coordinates:
  assumes "distortPointsR rnd m points timeMatrix F = Inr ps" "i < length points"
  shows "coordinates (ps ! i) =
     (rnd (fst (coordinates (points ! i)) + fst (offsetR rnd m points timeMatrix (factorOr1 F) i)),
      rnd (snd (coordinates (points ! i)) + snd (offsetR rnd m points timeMatrix (factorOr1 F) i)))"
proof -
  from assms have "distortPointR rnd m points timeMatrix (factorOr1 F) (points ! i, i) = Inr (ps ! i)"
    unfolding distortPointsR_Inr by blast
  then show ?thesis
    unfolding distortPointR_Inr [OF assms(2)] by simp
qed

lemma doubling_error:
  assumes "x1 = double (x + o1)" "x2 = double (x + 2 * o1)"
  shows "\<bar>(x2 - x) - 2 * (x1 - x)\<bar> \<le> (\<bar>x2\<bar> + 2 * \<bar>x1\<bar>) / 2 ^ 53"
proof -
  have e1: "\<bar>x1 - (x + o1)\<bar> \<le> \<bar>x1\<bar> / 2 ^ 53"
    unfolding assms(1) by (rule double_err_result)
  have e2: "\<bar>x2 - (x + 2 * o1)\<bar> \<le> \<bar>x2\<bar> / 2 ^ 53"
    unfolding assms(2) by (rule double_err_result)
  have t: "\<bar>a - 2 * b\<bar> \<le> \<bar>a\<bar> + 2 * \<bar>b\<bar>" for a b :: real by linarith
  have "(x2 - x) - 2 * (x1 - x) = (x2 - (x + 2 * o1)) - 2 * (x1 - (x + o1))" by simp
  then have "\<bar>(x2 - x) - 2 * (x1 - x)\<bar> \<le> \<bar>x2 - (x + 2 * o1)\<bar> + 2 * \<bar>x1 - (x + o1)\<bar>"
    using t [of "x2 - (x + 2 * o1)" "x1 - (x + o1)"] by simp
  with e1 e2 show ?thesis by (simp add: add_divide_distrib)
qed

lemma vecLength_near_twice:
  assumes "\<bar>a1 - 2 * b1\<bar> \<le> e1" "\<bar>a2 - 2 * b2\<bar> \<le> e2"
  shows "\<bar>vecLength (a1, a2) - 2 * vecLength (b1, b2)\<bar> \<le> e1 + e2"
proof -
  define c1 where "c1 = a1 - 2 * b1"
  define c2 where "c2 = a2 - 2 * b2"
  have tw: "sqrt ((2 * b1)\<^sup>2 + (2 * b2)\<^sup>2) = 2 * sqrt (b1\<^sup>2 + b2\<^sup>2)"
  proof -
    have "(2 * b1)\<^sup>2 + (2 * b2)\<^sup>2 = 2\<^sup>2 * (b1\<^sup>2 + b2\<^sup>2)" by (simp add: power2_eq_square algebra_simps)
    then show ?thesis by (simp only: real_sqrt_mult real_sqrt_abs)
  qed
  have c: "sqrt (c1\<^sup>2 + c2\<^sup>2) \<le> e1 + e2"
    using sqrt_sum_squares_le_sum_abs [of c1 c2] assms unfolding c1_def c2_def by linarith
  have c': "sqrt ((- c1)\<^sup>2 + (- c2)\<^sup>2) \<le> e1 + e2" using c by simp
  have "sqrt ((2 * b1 + c1)\<^sup>2 + (2 * b2 + c2)\<^sup>2)
          \<le> sqrt ((2 * b1)\<^sup>2 + (2 * b2)\<^sup>2) + sqrt (c1\<^sup>2 + c2\<^sup>2)"
    by (rule real_sqrt_sum_squares_triangle_ineq)
  then have u: "sqrt (a1\<^sup>2 + a2\<^sup>2) \<le> 2 * sqrt (b1\<^sup>2 + b2\<^sup>2) + (e1 + e2)"
    using c unfolding tw c1_def c2_def by simp
  have "sqrt ((a1 + - c1)\<^sup>2 + (a2 + - c2)\<^sup>2)
          \<le> sqrt (a1\<^sup>2 + a2\<^sup>2) + sqrt ((- c1)\<^sup>2 + (- c2)\<^sup>2)"
    by (rule real_sqrt_sum_squares_triangle_ineq)
  moreover have "a1 + - c1 = 2 * b1" "a2 + - c2 = 2 * b2" unfolding c1_def c2_def by simp_all
  ultimately have l: "2 * sqrt (b1\<^sup>2 + b2\<^sup>2) \<le> sqrt (a1\<^sup>2 + a2\<^sup>2) + (e1 + e2)"
    using c' unfolding tw [symmetric] by simp
  from u l show ?thesis unfolding vecLength_def fst_conv snd_conv by linarith
qed

lemma distortPointsR_two:
  "distortPointsR double exactLibm [pointA, pointB] twoMinutes (Some f) =
     Inr [pointA\<lparr>coordinates := (double (double (double (sixtieth * f))), 0),
                  travelTime := Some 1\<rparr>,
          pointB\<lparr>coordinates := (double (1 + double (double (sixtieth * f))), 0),
                  travelTime := Some 1\<rparr>]"
  by (simp add: distortPointsR_def distortPointR_def factorOr1_def reduceSumR_def atan2_def
      exactLibm_def twoMinutes_def pointA_def pointB_def gridPoint_def upt_conv_Cons
      double_0 double_1 double_2 double_sixtieth)

lemma distortPointsR_two_1:
  "distortPointsR double exactLibm [pointA, pointB] twoMinutes (Some 1) =
     Inr [pointA\<lparr>coordinates := (sixtieth, 0), travelTime := Some 1\<rparr>,
          pointB\<lparr>coordinates := (1 + 75059993789508 / 2 ^ 52, 0), travelTime := Some 1\<rparr>]"
  unfolding distortPointsR_two mult_1_right double_sixtieth_fix double_one_sixtieth ..

lemma distortPointsR_two_2:
  "distortPointsR double exactLibm [pointA, pointB] twoMinutes (Some (2 * 1)) =
     Inr [pointA\<lparr>coordinates := (2 * sixtieth, 0), travelTime := Some 1\<rparr>,
          pointB\<lparr>coordinates := (1 + 150119987579017 / 2 ^ 52, 0), travelTime := Some 1\<rparr>]"
proof -
  have s: "sixtieth * (2 * 1) = 2 * sixtieth" by simp
  have d: "double (2 * sixtieth) = 2 * sixtieth"
    unfolding double_twice double_sixtieth_fix ..
  show ?thesis
    unfolding distortPointsR_two s d double_one_two_sixtieth ..
qed

lemma computedNumbers_two:
  "computedNumbers double exactLibm [pointA, pointB] twoMinutes f 0 =
     [0, 0, 2, f, 1, sixtieth, double (sixtieth * f), 0, 0, 0, 1, 0,
      double (double (sixtieth * f)), 0, double (double (double (sixtieth * f))), 0]"
  "computedNumbers double exactLibm [pointA, pointB] twoMinutes f (Suc 0) =
     [0, 2, 2, f, 1, sixtieth, double (sixtieth * f), 0, 1, 0, 1, 0,
      double (double (sixtieth * f)), 0, double (1 + double (double (sixtieth * f))), 0]"
  by (simp_all add: computedNumbers_def reduceSumR_def atan2_def exactLibm_def twoMinutes_def
      pointA_def pointB_def gridPoint_def upt_conv_Cons Let_def
      double_0 double_1 double_2 double_sixtieth)

lemma double_two_sixtieths: "double (sixtieth * (2 * 1)) = 2 * sixtieth"
proof -
  have e: "sixtieth * (2 * 1) = 2 * sixtieth" by simp
  show ?thesis unfolding e double_twice double_sixtieth_fix ..
qed

lemma normal_run_two:
  "list_all normalOrZero (computedNumbers double exactLibm [pointA, pointB] twoMinutes 1 0)"
  "list_all normalOrZero (computedNumbers double exactLibm [pointA, pointB] twoMinutes 1 (Suc 0))"
  "list_all normalOrZero (computedNumbers double exactLibm [pointA, pointB] twoMinutes (2 * 1) 0)"
  "list_all normalOrZero
     (computedNumbers double exactLibm [pointA, pointB] twoMinutes (2 * 1) (Suc 0))"
proof -
  have s: "normalOrZero sixtieth" "normalOrZero (2 * sixtieth)" "normalOrZero 1" "normalOrZero 2"
    "normalOrZero 0" "normalOrZero (2 * 1)"
    "normalOrZero (1 + 75059993789508 / 2 ^ 52)" "normalOrZero (1 + 150119987579017 / 2 ^ 52)"
    by (simp_all add: normalOrZero_def sixtieth_def)
  have nil: "list_all normalOrZero []" by simp
  have d: "double (2 * sixtieth) = 2 * sixtieth"
    unfolding double_twice double_sixtieth_fix ..
  show "list_all normalOrZero (computedNumbers double exactLibm [pointA, pointB] twoMinutes 1 0)"
    unfolding computedNumbers_two mult_1_right double_sixtieth_fix list.pred_inject
    by (intro conjI s nil)
  show "list_all normalOrZero
          (computedNumbers double exactLibm [pointA, pointB] twoMinutes 1 (Suc 0))"
    unfolding computedNumbers_two mult_1_right double_sixtieth_fix double_one_sixtieth
      list.pred_inject
    by (intro conjI s nil)
  show "list_all normalOrZero
          (computedNumbers double exactLibm [pointA, pointB] twoMinutes (2 * 1) 0)"
    unfolding computedNumbers_two double_two_sixtieths d list.pred_inject
    by (intro conjI s nil)
  show "list_all normalOrZero
          (computedNumbers double exactLibm [pointA, pointB] twoMinutes (2 * 1) (Suc 0))"
    unfolding computedNumbers_two double_two_sixtieths d double_one_two_sixtieth list.pred_inject
    by (intro conjI s nil)
qed

text \<open>
  Claim C3, as the code has it, in double precision. The statement is about the runs
  in which no result overflows or underflows: every number computed for the factors
  \<open>f\<close> and \<open>2 * f\<close> is 0 or in the normal range. For every point list and time
  matrix on which \<open>distortPoints\<close> returns with the factor \<open>f\<close>, it returns with the
  factor \<open>2 * f\<close> as well. The offset added to the coordinates is doubled exactly, but
  the distorted coordinates are rounded sums: the displacement (distorted minus
  original coordinates) with \<open>2 * f\<close> is twice the displacement with \<open>f\<close> up to the
  rounding of the two sums, in each coordinate within
  \<open>(\<bar>x\<^sub>2\<bar> + 2 * \<bar>x\<^sub>1\<bar>) / 2 ^ 53\<close> for the distorted coordinates \<open>x\<^sub>1\<close> and \<open>x\<^sub>2\<close> of the
  two runs, and in length within the sum of the two bounds.
\<close>

theorem distortPoints_displacement_linear:
  assumes "distortPointsR double m points timeMatrix (Some f) = Inr ps"
    and "\<forall>i<length points.
           list_all normalOrZero (computedNumbers double m points timeMatrix f i) \<and>
           list_all normalOrZero (computedNumbers double m points timeMatrix (2 * f) i)"
  shows "\<exists>qs. distortPointsR double m points timeMatrix (Some (2 * f)) = Inr qs \<and>
           length ps = length points \<and> length qs = length points \<and>
           (\<forall>i<length points.
              \<bar>fst (displacement (points ! i) (qs ! i))
                 - 2 * fst (displacement (points ! i) (ps ! i))\<bar>
                \<le> (\<bar>fst (coordinates (qs ! i))\<bar> + 2 * \<bar>fst (coordinates (ps ! i))\<bar>) / 2 ^ 53 \<and>
              \<bar>snd (displacement (points ! i) (qs ! i))
                 - 2 * snd (displacement (points ! i) (ps ! i))\<bar>
                \<le> (\<bar>snd (coordinates (qs ! i))\<bar> + 2 * \<bar>snd (coordinates (ps ! i))\<bar>) / 2 ^ 53 \<and>
              \<bar>vecLength (displacement (points ! i) (qs ! i))
                 - 2 * vecLength (displacement (points ! i) (ps ! i))\<bar>
                \<le> (\<bar>fst (coordinates (qs ! i))\<bar> + 2 * \<bar>fst (coordinates (ps ! i))\<bar>) / 2 ^ 53
                  + (\<bar>snd (coordinates (qs ! i))\<bar> + 2 * \<bar>snd (coordinates (ps ! i))\<bar>) / 2 ^ 53)"
proof -
  from assms(1) have "length points \<le> length timeMatrix"
    using distortPointsR_returns_iff by blast
  then obtain qs where qs: "distortPointsR double m points timeMatrix (Some (2 * f)) = Inr qs"
    using distortPointsR_returns_iff by blast
  have lp: "length ps = length points" using assms(1) unfolding distortPointsR_Inr by blast
  have lq: "length qs = length points" using qs unfolding distortPointsR_Inr by blast
  have "\<bar>fst (displacement (points ! i) (qs ! i))
                 - 2 * fst (displacement (points ! i) (ps ! i))\<bar>
                \<le> (\<bar>fst (coordinates (qs ! i))\<bar> + 2 * \<bar>fst (coordinates (ps ! i))\<bar>) / 2 ^ 53 \<and>
              \<bar>snd (displacement (points ! i) (qs ! i))
                 - 2 * snd (displacement (points ! i) (ps ! i))\<bar>
                \<le> (\<bar>snd (coordinates (qs ! i))\<bar> + 2 * \<bar>snd (coordinates (ps ! i))\<bar>) / 2 ^ 53 \<and>
              \<bar>vecLength (displacement (points ! i) (qs ! i))
                 - 2 * vecLength (displacement (points ! i) (ps ! i))\<bar>
                \<le> (\<bar>fst (coordinates (qs ! i))\<bar> + 2 * \<bar>fst (coordinates (ps ! i))\<bar>) / 2 ^ 53
                  + (\<bar>snd (coordinates (qs ! i))\<bar> + 2 * \<bar>snd (coordinates (ps ! i))\<bar>) / 2 ^ 53"
    if i: "i < length points" for i
  proof -
    note cp = distortPointsR_coordinates [OF assms(1) i, unfolded factorOr1_def option.case]
    note cq = distortPointsR_coordinates [OF qs i, unfolded factorOr1_def option.case
        offsetR_twice fst_conv snd_conv]
    have 1: "fst (coordinates (ps ! i)) = double (fst (coordinates (points ! i))
               + fst (offsetR double m points timeMatrix f i))"
      and 2: "snd (coordinates (ps ! i)) = double (snd (coordinates (points ! i))
               + snd (offsetR double m points timeMatrix f i))"
      using cp by simp_all
    have 3: "fst (coordinates (qs ! i)) = double (fst (coordinates (points ! i))
               + 2 * fst (offsetR double m points timeMatrix f i))"
      and 4: "snd (coordinates (qs ! i)) = double (snd (coordinates (points ! i))
               + 2 * snd (offsetR double m points timeMatrix f i))"
      using cq by simp_all
    note x = doubling_error [OF 1 3] and y = doubling_error [OF 2 4]
    have l: "\<bar>vecLength (fst (coordinates (qs ! i)) - fst (coordinates (points ! i)),
                         snd (coordinates (qs ! i)) - snd (coordinates (points ! i)))
              - 2 * vecLength (fst (coordinates (ps ! i)) - fst (coordinates (points ! i)),
                               snd (coordinates (ps ! i)) - snd (coordinates (points ! i)))\<bar>
             \<le> (\<bar>fst (coordinates (qs ! i))\<bar> + 2 * \<bar>fst (coordinates (ps ! i))\<bar>) / 2 ^ 53
               + (\<bar>snd (coordinates (qs ! i))\<bar> + 2 * \<bar>snd (coordinates (ps ! i))\<bar>) / 2 ^ 53"
      using x y by (rule vecLength_near_twice)
    show ?thesis
      unfolding displacement_def fst_conv snd_conv
      using x y l by blast
  qed
  with qs lp lq show ?thesis by blast
qed

text \<open>
  Two points one degree apart and 2 minutes from each other. With the factor 1 the
  second point moves from 1 to 1.0166666666666666, with the factor 2 to
  1.0333333333333334: the displacements are 0.016666666666666607 and
  0.03333333333333344, which is twice the first up to \<open>2 ^ -52\<close>.
\<close>

theorem distortPoints_displacement_linear_witness:
  "distortPointsR double exactLibm [pointA, pointB] twoMinutes (Some 1) =
     Inr [pointA\<lparr>coordinates := (sixtieth, 0), travelTime := Some 1\<rparr>,
          pointB\<lparr>coordinates := (1 + 75059993789508 / 2 ^ 52, 0), travelTime := Some 1\<rparr>] \<and>
   list_all normalOrZero (computedNumbers double exactLibm [pointA, pointB] twoMinutes 1 0) \<and>
   list_all normalOrZero (computedNumbers double exactLibm [pointA, pointB] twoMinutes 1 1) \<and>
   list_all normalOrZero (computedNumbers double exactLibm [pointA, pointB] twoMinutes (2 * 1) 0) \<and>
   list_all normalOrZero (computedNumbers double exactLibm [pointA, pointB] twoMinutes (2 * 1) 1) \<and>
   distortPointsR double exactLibm [pointA, pointB] twoMinutes (Some (2 * 1)) =
     Inr [pointA\<lparr>coordinates := (2 * sixtieth, 0), travelTime := Some 1\<rparr>,
          pointB\<lparr>coordinates := (1 + 150119987579017 / 2 ^ 52, 0), travelTime := Some 1\<rparr>] \<and>
   \<bar>150119987579017 / 2 ^ 52 - 2 * (75059993789508 / 2 ^ 52)\<bar>
     \<le> (\<bar>1 + 150119987579017 / 2 ^ 52\<bar> + 2 * \<bar>1 + 75059993789508 / 2 ^ 52 :: real\<bar>) / 2 ^ 53"
proof -
  note r = distortPointsR_two_1 and q = distortPointsR_two_2
  note n = normal_run_two
  have n': "list_all normalOrZero (computedNumbers double exactLibm [pointA, pointB] twoMinutes 1 1)"
    "list_all normalOrZero (computedNumbers double exactLibm [pointA, pointB] twoMinutes (2 * 1) 1)"
    using n(2,4) by (simp_all only: One_nat_def)
  have h: "\<forall>i<length [pointA, pointB].
           list_all normalOrZero (computedNumbers double exactLibm [pointA, pointB] twoMinutes 1 i) \<and>
           list_all normalOrZero
             (computedNumbers double exactLibm [pointA, pointB] twoMinutes (2 * 1) i)"
  proof (intro allI impI)
    fix i :: nat assume "i < length [pointA, pointB]"
    then have "i = 0 \<or> i = Suc 0" by auto
    then show "list_all normalOrZero
                 (computedNumbers double exactLibm [pointA, pointB] twoMinutes 1 i) \<and>
               list_all normalOrZero
                 (computedNumbers double exactLibm [pointA, pointB] twoMinutes (2 * 1) i)"
      using n by blast
  qed
  from distortPoints_displacement_linear [OF r h] q
  have "\<forall>i<length [pointA, pointB].
      \<bar>fst (displacement ([pointA, pointB] ! i)
         ([pointA\<lparr>coordinates := (2 * sixtieth, 0), travelTime := Some 1\<rparr>,
           pointB\<lparr>coordinates := (1 + 150119987579017 / 2 ^ 52, 0), travelTime := Some 1\<rparr>] ! i))
       - 2 * fst (displacement ([pointA, pointB] ! i)
         ([pointA\<lparr>coordinates := (sixtieth, 0), travelTime := Some 1\<rparr>,
           pointB\<lparr>coordinates := (1 + 75059993789508 / 2 ^ 52, 0), travelTime := Some 1\<rparr>] ! i))\<bar>
      \<le> (\<bar>fst (coordinates ([pointA\<lparr>coordinates := (2 * sixtieth, 0), travelTime := Some 1\<rparr>,
           pointB\<lparr>coordinates := (1 + 150119987579017 / 2 ^ 52, 0), travelTime := Some 1\<rparr>] ! i))\<bar>
         + 2 * \<bar>fst (coordinates ([pointA\<lparr>coordinates := (sixtieth, 0), travelTime := Some 1\<rparr>,
           pointB\<lparr>coordinates := (1 + 75059993789508 / 2 ^ 52, 0), travelTime := Some 1\<rparr>] ! i))\<bar>)
          / 2 ^ 53"
    by auto
  from this [rule_format, of 1]
  have e: "\<bar>150119987579017 / 2 ^ 52 - 2 * (75059993789508 / 2 ^ 52)\<bar>
     \<le> (\<bar>1 + 150119987579017 / 2 ^ 52\<bar> + 2 * \<bar>1 + 75059993789508 / 2 ^ 52 :: real\<bar>) / 2 ^ 53"
    by (simp add: displacement_def pointB_def gridPoint_def)
  show ?thesis by (intro conjI r q n(1) n(3) n' e)
qed

text \<open>
  The same two runs against the claim as written: the displacement of the second point
  with the factor 2 is not twice its displacement with the factor 1, as a vector or in
  length.
\<close>

theorem distortPoints_displacement_rounded_counterexample:
  "distortPointsR double exactLibm [pointA, pointB] twoMinutes (Some 1) =
     Inr [pointA\<lparr>coordinates := (sixtieth, 0), travelTime := Some 1\<rparr>,
          pointB\<lparr>coordinates := (1 + 75059993789508 / 2 ^ 52, 0), travelTime := Some 1\<rparr>] \<and>
   distortPointsR double exactLibm [pointA, pointB] twoMinutes (Some (2 * 1)) =
     Inr [pointA\<lparr>coordinates := (2 * sixtieth, 0), travelTime := Some 1\<rparr>,
          pointB\<lparr>coordinates := (1 + 150119987579017 / 2 ^ 52, 0), travelTime := Some 1\<rparr>] \<and>
   displacement pointB
       (pointB\<lparr>coordinates := (1 + 150119987579017 / 2 ^ 52, 0), travelTime := Some 1\<rparr>)
     = (150119987579017 / 2 ^ 52, 0) \<and>
   displacement pointB
       (pointB\<lparr>coordinates := (1 + 75059993789508 / 2 ^ 52, 0), travelTime := Some 1\<rparr>)
     = (75059993789508 / 2 ^ 52, 0) \<and>
   vecLength (150119987579017 / 2 ^ 52, 0) \<noteq> 2 * vecLength (75059993789508 / 2 ^ 52, 0)"
  using distortPointsR_two_1 distortPointsR_two_2
  by (simp add: displacement_def vecLength_def pointB_def gridPoint_def)

subsection \<open>The travel time of a distorted point\<close>

lemma distortPoint_utils_Inr:
  assumes "i < length points"
  shows "distortPoint_utils points timeMatrix (points ! i, i) = Inr q \<longleftrightarrow>
     i < length timeMatrix \<and>
     q = (points ! i)\<lparr> coordinates :=
            (fst (coordinates (points ! i))
               + cos (atan2 (snd (coordinates (points ! i)) - snd (coordinates (points ! 0)))
                            (fst (coordinates (points ! i)) - fst (coordinates (points ! 0))))
                 * (reduceSum (timeMatrix ! i) / real (length points) / 60),
             snd (coordinates (points ! i))
               + sin (atan2 (snd (coordinates (points ! i)) - snd (coordinates (points ! 0)))
                            (fst (coordinates (points ! i)) - fst (coordinates (points ! 0))))
                 * (reduceSum (timeMatrix ! i) / real (length points) / 60)) \<rparr>"
proof -
  from assms obtain c rest where p: "points = c # rest" by (cases points) auto
  show ?thesis
    unfolding distortPoint_utils_def p by (auto simp: Let_def)
qed

lemma distortPoints_utils_Inr:
  "distortPoints_utils points timeMatrix = Inr us \<longleftrightarrow>
     length us = length points \<and>
     (\<forall>i<length points. distortPoint_utils points timeMatrix (points ! i, i) = Inr (us ! i))"
  unfolding distortPoints_utils_def mapThrow_Inr_iff by auto

lemma distortPoints_travelTime_nth:
  assumes "distortPoints points timeMatrix F = Inr ps" "i < length points"
  shows "travelTime (ps ! i) = Some (reduceSum (timeMatrix ! i) / real (length points))"
proof -
  from assms have "distortPoint points timeMatrix (factorOr1 F) (points ! i, i) = Inr (ps ! i)"
    unfolding distortPoints_Inr by blast
  then show ?thesis
    unfolding distortPoint_Inr [OF assms(2)] by simp
qed

lemma distortPoints_utils_travelTime_nth:
  assumes "distortPoints_utils points timeMatrix = Inr us" "i < length points"
  shows "travelTime (us ! i) = travelTime (points ! i)"
proof -
  from assms have "distortPoint_utils points timeMatrix (points ! i, i) = Inr (us ! i)"
    unfolding distortPoints_utils_Inr by blast
  then show ?thesis
    unfolding distortPoint_utils_Inr [OF assms(2)] by simp
qed

text \<open>
  Claim C8, as the code has it. When \<open>distortPoints\<close> of TimeDistortionMap.tsx
  returns, it returns one point per input point, and the travel time of point \<open>i\<close> is
  present: it is the sum of row \<open>i\<close> of the time matrix divided by the number of
  points, which is the mean of row \<open>i\<close> when the row has one entry per point (a
  matrix of N by N entries for N points). \<open>distortPoints\<close> of utils/distortion.ts
  computes the same average without storing it: the travel time of each point it
  returns is the one of the input point.
\<close>

theorem distortPoints_travelTime:
  assumes "distortPoints points timeMatrix distortionFactor = Inr ps" and "i < length points"
  shows "length ps = length points \<and>
         travelTime (ps ! i) = Some (reduceSum (timeMatrix ! i) / real (length points)) \<and>
         (length (timeMatrix ! i) = length points \<longrightarrow>
            travelTime (ps ! i)
              = Some (sum_list (timeMatrix ! i) / real (length (timeMatrix ! i)))) \<and>
         (\<forall>us. distortPoints_utils points timeMatrix = Inr us \<longrightarrow>
            travelTime (us ! i) = travelTime (points ! i))"
proof -
  have l: "length ps = length points"
    using assms(1) unfolding distortPoints_Inr by blast
  have t: "travelTime (ps ! i) = Some (reduceSum (timeMatrix ! i) / real (length points))"
    by (rule distortPoints_travelTime_nth [OF assms])
  have m: "travelTime (ps ! i) = Some (sum_list (timeMatrix ! i) / real (length (timeMatrix ! i)))"
    if "length (timeMatrix ! i) = length points"
    using t that by (simp add: reduceSum_sum_list)
  have u: "travelTime (us ! i) = travelTime (points ! i)"
    if "distortPoints_utils points timeMatrix = Inr us" for us
    by (rule distortPoints_utils_travelTime_nth [OF that assms(2)])
  from l t m u show ?thesis by blast
qed

text \<open>
  The two points 2 minutes apart: the second row of the matrix is \<open>[2, 0]\<close>, its mean
  is 1, and that is the travel time of the second point returned.
\<close>

theorem distortPoints_travelTime_witness:
  "distortPoints [pointA, pointB] twoMinutes (Some 1) =
     Inr [pointA\<lparr>coordinates := (1 / 60, 0), travelTime := Some 1\<rparr>,
          pointB\<lparr>coordinates := (1 + 1 / 60, 0), travelTime := Some 1\<rparr>] \<and>
   (1::nat) < length [pointA, pointB] \<and>
   length (twoMinutes ! 1) = length [pointA, pointB] \<and>
   travelTime ([pointA\<lparr>coordinates := (1 / 60, 0), travelTime := Some 1\<rparr>,
          pointB\<lparr>coordinates := (1 + 1 / 60, 0), travelTime := Some 1\<rparr>] ! 1)
     = Some (sum_list (twoMinutes ! 1) / real (length (twoMinutes ! 1)))"
proof -
  have r: "distortPoints [pointA, pointB] twoMinutes (Some 1) =
     Inr [pointA\<lparr>coordinates := (1 / 60, 0), travelTime := Some 1\<rparr>,
          pointB\<lparr>coordinates := (1 + 1 / 60, 0), travelTime := Some 1\<rparr>]"
    using distortPoints_two [of 1] by simp
  have i: "(1::nat) < length [pointA, pointB]" by simp
  have n: "length (twoMinutes ! 1) = length [pointA, pointB]" by (simp add: twoMinutes_def)
  note t = distortPoints_travelTime [OF r i, THEN conjunct2, THEN conjunct2, THEN conjunct1,
      rule_format, OF n]
  from r i n t show ?thesis by blast
qed

text \<open>
  \<open>distortPoints\<close> of utils/distortion.ts on one point without a travel time and the
  row \<open>[30]\<close>: the point moves by 30 / 60 and still has no travel time, while the mean
  of its row is 30.
\<close>

theorem distortPoints_utils_travelTime_counterexample:
  "distortPoints_utils [pointB] [[30]] = Inr [pointB\<lparr>coordinates := (3 / 2, 0)\<rparr>] \<and>
   travelTime (pointB\<lparr>coordinates := (3 / 2, 0)\<rparr>) = None \<and>
   sum_list ([[30]] ! 0) / real (length ([[30 :: real]] ! 0)) = 30"
  by (simp add: distortPoints_utils_def distortPoint_utils_def reduceSum_def atan2_def
      pointB_def gridPoint_def)

end
